theory Spec2Isabelle
  imports Main "HOL-Library.Sublist" "HOL-Library.Multiset" "HOL-Library.Signed_Division"
begin

section \<open>Go library functions used by the sources\<close>

type_synonym bytes = string

text \<open>\<^verbatim>\<open>strings.Index(s, substr)\<close>: the index of the first occurrence of \<open>substr\<close> in
  \<open>s\<close>, or \<open>None\<close> for Go's \<open>-1\<close>.\<close>

fun strings_Index :: "string \<Rightarrow> string \<Rightarrow> nat option" where
  "strings_Index [] substr = (if substr = [] then Some 0 else None)"
| "strings_Index (c # s) substr =
     (if prefix substr (c # s) then Some 0 else map_option Suc (strings_Index s substr))"

text \<open>\<^verbatim>\<open>strings.Contains(s, substr)\<close> is \<^verbatim>\<open>Index(s, substr) >= 0\<close>.\<close>

definition strings_Contains :: "string \<Rightarrow> string \<Rightarrow> bool" where
  "strings_Contains s substr = (strings_Index s substr \<noteq> None)"

text \<open>\<^verbatim>\<open>strings.Cut(s, sep)\<close>: slices \<open>s\<close> around the first instance of \<open>sep\<close>; without
  one it returns \<open>(s, "", false)\<close>.\<close>

definition strings_Cut :: "string \<Rightarrow> string \<Rightarrow> string \<times> string \<times> bool" where
  "strings_Cut s sep =
     (case strings_Index s sep of
        Some i \<Rightarrow> (take i s, drop (i + length sep) s, True)
      | None \<Rightarrow> (s, [], False))"

text \<open>\<^verbatim>\<open>strings.Join(elems, sep)\<close>.\<close>

fun strings_Join :: "string list \<Rightarrow> string \<Rightarrow> string" where
  "strings_Join [] sep = []"
| "strings_Join [x] sep = x"
| "strings_Join (x # y # ys) sep = x @ sep @ strings_Join (y # ys) sep"

text \<open>The decimal rendering of an unsigned integer, as \<^verbatim>\<open>%d\<close> prints it.\<close>

definition digit :: "nat \<Rightarrow> char" where
  "digit n = char_of (of_char CHR ''0'' + n)"

function decimal :: "nat \<Rightarrow> string" where
  "decimal n = (if n < 10 then [digit n] else decimal (n div 10) @ [digit (n mod 10)])"
  by pat_completeness auto
termination
  by (relation "measure id") auto

declare decimal.simps [simp del]

subsection \<open>Errors\<close>

text \<open>Go's \<open>error\<close> interface values built by the sources and their libraries: a message
  (\<^verbatim>\<open>errors.New\<close>, \<^verbatim>\<open>fmt.Errorf\<close> without \<^verbatim>\<open>%w\<close>, and every error the broker hands
  back), a wrapped error (\<^verbatim>\<open>fmt.Errorf("...: %w", err)\<close>), the value of
  \<^verbatim>\<open>errors.Join\<close> and the value of \<^verbatim>\<open>multierror.Append\<close>. A nil \<open>error\<close> is \<open>None\<close> of
  \<open>error option\<close>.\<close>

datatype error =
    Errorf string
  | Wrapf string error
  | joinError "error list"
  | multierror "error list"

text \<open>The default format of a \<open>multierror\<close>, from the texts of its errors.\<close>

definition ListFormatFunc :: "string list \<Rightarrow> string" where
  "ListFormatFunc es =
     (if length es = 1 then ''1 error occurred:'' @ [CHR 0x0A, CHR 0x09] @ ''* ''
          @ hd es @ [CHR 0x0A, CHR 0x0A]
      else decimal (length es) @ '' errors occurred:'' @ [CHR 0x0A, CHR 0x09]
          @ strings_Join (map (\<lambda>e. ''* '' @ e) es) [CHR 0x0A, CHR 0x09]
          @ [CHR 0x0A, CHR 0x0A])"

text \<open>\<^verbatim>\<open>err.Error()\<close>.\<close>

fun Error :: "error \<Rightarrow> string" where
  "Error (Errorf s) = s"
| "Error (Wrapf s e) = s @ Error e"
| "Error (joinError es) = strings_Join (map Error es) [CHR 0x0A]"
| "Error (multierror es) = ListFormatFunc (map Error es)"

text \<open>\<^verbatim>\<open>errors.Join(errs...)\<close> discards nil values and returns nil when none is left.\<close>

definition errors_Join :: "error option list \<Rightarrow> error option" where
  "errors_Join errs =
     (case List.map_filter id errs of [] \<Rightarrow> None | e # es \<Rightarrow> Some (joinError (e # es)))"

text \<open>\<^verbatim>\<open>multierror.Append(err, errs...)\<close> with one error to append: the errors of \<open>err\<close>
  (those it holds when it is a \<open>multierror\<close>, itself otherwise, none when it is nil), then
  the appended error, a \<open>multierror\<close> among them being replaced by the errors it holds.\<close>

definition multierror_Append :: "error option \<Rightarrow> error \<Rightarrow> error option" where
  "multierror_Append err e =
     Some (multierror
       ((case err of None \<Rightarrow> [] | Some (multierror es) \<Rightarrow> es | Some e' \<Rightarrow> [e'])
        @ (case e of multierror es' \<Rightarrow> es' | _ \<Rightarrow> [e])))"

section \<open>The broker, as the client sees it\<close>

text \<open>\<^verbatim>\<open>time.Duration\<close> counts nanoseconds.\<close>

type_synonym Duration = int

definition Second :: Duration where
  "Second = 1000000000"

definition Minute :: Duration where
  "Minute = 60 * Second"

text \<open>A message as the broker delivers it (\<^verbatim>\<open>jetstream.Msg\<close>): subject, payload and the
  stream sequence of its metadata.\<close>

record Msg =
  Subject :: string
  Data :: bytes
  Sequence :: nat

text \<open>What a message can be answered with. The broker's replies to these calls are ignored by the
  sources, except for \<open>InProgress\<close> and \<open>DoubleAck\<close>, which the worker reads.\<close>

datatype ackAction = Ack | DoubleAck | Nak | NakWithDelay Duration | Term | InProgress

record PubAck =
  ackStream :: string
  ackSequence :: nat

datatype DeliverPolicy = DeliverAllPolicy | DeliverLastPolicy | DeliverNewPolicy

record OrderedConsumerConfig =
  FilterSubjects :: "string list"
  orderedDeliverPolicy :: DeliverPolicy

record ConsumerConfig =
  Name :: string
  Durable :: string
  Description :: string
  FilterSubject :: string
  DeliverPolicy :: DeliverPolicy
  AckWait :: Duration

text \<open>A consumer, known by the configuration the broker reports for it
  (\<^verbatim>\<open>CachedInfo().Config\<close>).\<close>

record Consumer =
  Config :: ConsumerConfig

text \<open>An ordered consumer: \<open>Messages\<close> fails or gives the iterator, which is the list of what the
  successive calls of \<^verbatim>\<open>Next()\<close> return. \<open>Next\<close> blocks while nothing is delivered, so
  reading past the end of the list never returns.\<close>

record OrderedConsumer =
  Messages :: "error + (error + Msg) list"

record RawStreamMsg =
  rawSubject :: string
  rawSequence :: nat
  rawData :: bytes

record Stream =
  GetLastMsgForSubject :: "string \<Rightarrow> RawStreamMsg option \<times> error option"

text \<open>The JetStream context. Each method of the broker is the function that gives its reply;
  the reply to a publish may depend on everything published before. \<open>published\<close> records
  every publish request with the error it was answered with.\<close>

record JetStream =
  publishReply :: "(string \<times> bytes \<times> error option) list \<Rightarrow> string \<Rightarrow> bytes
      \<Rightarrow> PubAck option \<times> error option"
  published :: "(string \<times> bytes \<times> error option) list"
  OrderedConsumer :: "string \<Rightarrow> OrderedConsumerConfig \<Rightarrow> error + OrderedConsumer"
  Stream :: "string \<Rightarrow> error + Stream"
  CreateConsumer :: "string \<Rightarrow> ConsumerConfig \<Rightarrow> error + Consumer"

definition js_Publish :: "JetStream \<Rightarrow> string \<Rightarrow> bytes
    \<Rightarrow> (PubAck option \<times> error option) \<times> JetStream" where
  "js_Publish js subject data =
     (let (puback, err) = publishReply js (published js) subject data
      in ((puback, err), js\<lparr>published := published js @ [(subject, data, err)]\<rparr>))"

section \<open>The client (package nats)\<close>

definition ChannelNotify :: string where
  "ChannelNotify = ''notify''"

definition ChannelRequest :: string where
  "ChannelRequest = ''request''"

record Client =
  accountId :: string
  JetStream :: JetStream
  Consumer :: "Consumer option"

text \<open>Modelled from the spec: the type \<open>MsgMeta\<close> is declared outside the sources at hand. Its
  fields are those of the parsed message metadata of the data model.\<close>

record MsgMeta =
  AccountId :: string
  Channel :: string
  SequenceId :: string
  MessageId :: string
  AppName :: string
  HandlerName :: string
  StreamSequence :: nat

text \<open>The parser \<open>Parse\<close> is not among the sources at hand either: the functions that call it
  take it as a parameter of this type.\<close>

type_synonym parser = "Msg \<Rightarrow> error + MsgMeta"

text \<open>Modelled from the spec: the subject codec's forms of the sequence history filter
  \<open>{account}.notify.{sequence_id}.*\<close>, of the source event
  \<open>{account}.notify.{sequence_id}.event\<close> and of the replay filter
  \<open>{account}.notify.{replay_sequence_id}.*\<close>.\<close>

definition SequenceFilter :: "MsgMeta \<Rightarrow> string" where
  "SequenceFilter m = strings_Join [AccountId m, ChannelNotify, SequenceId m, ''*''] ''.''"

definition SourceEventSubject :: "string \<Rightarrow> string \<Rightarrow> string" where
  "SourceEventSubject account sequenceId =
     strings_Join [account, ChannelNotify, sequenceId, ''event''] ''.''"

definition ReplayFilterSubject :: "string \<Rightarrow> string \<Rightarrow> string" where
  "ReplayFilterSubject account replaySequenceId =
     strings_Join [account, ChannelNotify, replaySequenceId, ''*''] ''.''"

type_synonym MessageBundle = "string \<rightharpoonup> bytes"

subsection \<open>Publish\<close>

text \<open>The three results are \<open>(puback, err, sent)\<close>; the client comes back with the publish
  recorded. The two debug log lines are left out.\<close>

definition Publish :: "Client \<Rightarrow> bytes \<Rightarrow> string list
    \<Rightarrow> (PubAck option \<times> error option \<times> bool) \<times> Client" where
  "Publish c data subjTokens =
     (let isFullSubject = (case subjTokens of [t] \<Rightarrow> strings_Contains t ''.'' | _ \<Rightarrow> False);
          subject = (if \<not> isFullSubject then strings_Join (accountId c # subjTokens) ''.''
                     else hd subjTokens);
          ((puback, err), js) = js_Publish (JetStream c) subject data;
          c' = c\<lparr>JetStream := js\<rparr>
      in case err of
           None \<Rightarrow> ((puback, None, True), c')
         | Some e \<Rightarrow>
             if strings_Contains (Error e) ''maximum messages per subject exceeded''
             then ((puback, None, False), c')
             else ((puback, Some e, True), c'))"

subsection \<open>FetchMessageBundle\<close>

text \<open>The loop of \<open>FetchMessageBundle\<close> over the iterator. \<open>None\<close>: the loop is still waiting
  in \<open>Next\<close> when the deliveries end.\<close>

fun readBack :: "parser \<Rightarrow> MsgMeta \<Rightarrow> (error + Msg) list \<Rightarrow> MessageBundle
    \<Rightarrow> (error + MessageBundle) option" where
  "readBack Parse newMsg [] msgBundle = None"
| "readBack Parse newMsg (Inl err # rest) msgBundle = Some (Inl err)"
| "readBack Parse newMsg (Inr m # rest) msgBundle =
     (case Parse m of
        Inl err \<Rightarrow> Some (Inl err)
      | Inr msg \<Rightarrow>
          if StreamSequence msg > StreamSequence newMsg
          then Some (Inl (Errorf (''Unable to find original message with NATS sequence of: ''
                  @ decimal (StreamSequence newMsg))))
          else let msgBundle' = msgBundle(MessageId msg \<mapsto> Data m)
               in if StreamSequence msg = StreamSequence newMsg then Some (Inr msgBundle')
                  else readBack Parse newMsg rest msgBundle')"

definition FetchMessageBundle :: "Client \<Rightarrow> parser \<Rightarrow> MsgMeta
    \<Rightarrow> (error + MessageBundle) option" where
  "FetchMessageBundle c Parse newMsg =
     (let filter = SequenceFilter newMsg;
          consumerConf = \<lparr>FilterSubjects = [filter], orderedDeliverPolicy = DeliverAllPolicy\<rparr>
      in case OrderedConsumer (JetStream c) (accountId c) consumerConf of
           Inl err \<Rightarrow> Some (Inl (Wrapf ''Unable to create ordered consumer: '' err))
         | Inr cons \<Rightarrow>
             (case Messages cons of
                Inl err \<Rightarrow> Some (Inl (Wrapf ''Unable to read back messages: '' err))
              | Inr msgCtx \<Rightarrow> readBack Parse newMsg msgCtx Map.empty))"

subsection \<open>ConsumeSequences\<close>

text \<open>How a call ends: it returns, or it panics with a value.\<close>

datatype panic = PanicError error | RuntimePanic string

datatype finish = Returned | Panicked panic

text \<open>A sequence handler is \<open>SequenceCallback(ctx, sequenceId, bundle)\<close>, seen here by its
  result alone.\<close>

type_synonym SequenceHandler = "string \<Rightarrow> MessageBundle \<Rightarrow> error option"

text \<open>What one run of the callback \<open>wrappedCB\<close> of \<open>ConsumeSequences\<close> does: the answers it
  gives on the message, the calls of the handler, and how it ends. The log lines are left
  out.\<close>

record sequenceRun =
  acks :: "ackAction list"
  handlerCalls :: "(string \<times> MessageBundle) list"
  finish :: finish

text \<open>\<open>None\<close>: the callback is still inside \<open>FetchMessageBundle\<close>.\<close>

definition wrappedCB :: "Client \<Rightarrow> parser \<Rightarrow> SequenceHandler \<Rightarrow> Msg \<Rightarrow> sequenceRun option" where
  "wrappedCB c Parse handler msg =
     (case Parse msg of
        Inl err \<Rightarrow> Some \<lparr>acks = [Term], handlerCalls = [], finish = Returned\<rparr>
      | Inr hopsMsg \<Rightarrow>
          (case FetchMessageBundle c Parse hopsMsg of
             None \<Rightarrow> None
           | Some (Inl err) \<Rightarrow>
               Some \<lparr>acks = [NakWithDelay (3 * Second)], handlerCalls = [],
                     finish = Panicked (PanicError err)\<rparr>
           | Some (Inr msgBundle) \<Rightarrow>
               (case handler (SequenceId hopsMsg) msgBundle of
                  Some err \<Rightarrow>
                    Some \<lparr>acks = [NakWithDelay (3 * Second)],
                          handlerCalls = [(SequenceId hopsMsg, msgBundle)], finish = Returned\<rparr>
                | None \<Rightarrow>
                    Some \<lparr>acks = [Ack], handlerCalls = [(SequenceId hopsMsg, msgBundle)],
                          finish = Returned\<rparr>)))"

subsection \<open>The replay client\<close>

text \<open>\<open>uuid\<close> is the value of \<^verbatim>\<open>uuid.NewString()\<close>; slicing it with \<^verbatim>\<open>[:20]\<close> panics when it
  is shorter. The result is the returned error with the client as the call leaves it.\<close>

definition initReplayConsumer :: "Client \<Rightarrow> string \<Rightarrow> string \<Rightarrow> string
    \<Rightarrow> panic + (error option \<times> Client)" where
  "initReplayConsumer c uuid account sequenceId =
     (case Stream (JetStream c) account of
        Inl err \<Rightarrow> Inr (Some err, c)
      | Inr stream \<Rightarrow>
          let sourceMsgSubject = SourceEventSubject account sequenceId
          in (case GetLastMsgForSubject stream sourceMsgSubject of
               (rawMsg, Some err) \<Rightarrow> Inr (Some (Wrapf ''Failed to fetch source event: '' err), c)
             | (None, None) \<Rightarrow>
                 Inr (Some (Errorf (''No source event found for subject '' @ [CHR 0x27]
                        @ sourceMsgSubject @ [CHR 0x27])), c)
             | (Some rawMsg, None) \<Rightarrow>
                 if length uuid < 20 then Inl (RuntimePanic ''slice bounds out of range'')
                 else
                   let replaySequenceId = ''replay-'' @ take 20 uuid;
                       consumerCfg =
                         \<lparr>Name = replaySequenceId, Durable = [],
                          Description = ''Replay request for sequence: '' @ [CHR 0x27]
                            @ sequenceId @ [CHR 0x27],
                          FilterSubject = ReplayFilterSubject account replaySequenceId,
                          DeliverPolicy = DeliverAllPolicy, AckWait = 0\<rparr>
                   in (case CreateConsumer (JetStream c) account consumerCfg of
                        Inl err \<Rightarrow> Inr (Some err, c)
                      | Inr consumer \<Rightarrow>
                          let (seeded, c') =
                                Publish c (rawData rawMsg) [ChannelNotify, replaySequenceId, ''event'']
                          in Inr (None, c'\<lparr>Consumer := Some consumer\<rparr>))))"

text \<open>\<open>NewReplayClient\<close>: \<open>connect\<close> stands for \<^verbatim>\<open>nats.Connect\<close> with the client's options and
  gives the JetStream context of the connection, or the error of \<open>initNatsConnection\<close> (\<open>Inl\<close>)
  or of \<open>initJetStream\<close> (\<open>Inr\<close>). A failure after the connection is made drains it
  (\<open>Close\<close>): the flag of \<open>Failed\<close>.\<close>

datatype newClient = Ready Client | Failed error bool

definition NewReplayClient :: "(string \<Rightarrow> (error + error) + JetStream) \<Rightarrow> string \<Rightarrow> string \<Rightarrow> string
    \<Rightarrow> string \<Rightarrow> panic + newClient" where
  "NewReplayClient connect uuid natsUrl account sequenceId =
     (case connect natsUrl of
        Inl (Inl err) \<Rightarrow> Inr (Failed err False)
      | Inl (Inr err) \<Rightarrow> Inr (Failed err True)
      | Inr js \<Rightarrow>
          (case initReplayConsumer \<lparr>accountId = account, JetStream = js, Consumer = None\<rparr>
                  uuid account sequenceId of
             Inl p \<Rightarrow> Inl p
           | Inr (Some err, natsClient) \<Rightarrow> Inr (Failed err True)
           | Inr (None, natsClient) \<Rightarrow> Inr (Ready natsClient)))"

section \<open>The runner (package runner)\<close>

text \<open>Modelled from the spec: the types of the parsed rules are declared outside the sources at
  hand. A call has a task type, a name, a slug, an \<open>if\<close> value and its inputs; an \<open>On\<close> has an
  event type, a name, a slug, an \<open>if\<close> value and its calls.\<close>

record CallAST =
  TaskType :: string
  callName :: string
  callSlug :: string
  callIfClause :: bool
  Inputs :: bytes

record OnAST =
  EventType :: string
  onName :: string
  onSlug :: string
  onIfClause :: bool
  Calls :: "CallAST list"

record HopAST =
  Ons :: "OnAST list"

text \<open>The rule evaluator \<^verbatim>\<open>dsl.ParseHops(ctx, hops, msgBundle, logger)\<close> rests on the HCL
  library; the runner takes it as a parameter. The type of rule bodies (\<^verbatim>\<open>hcl.Body\<close>) is left
  open.\<close>

type_synonym 'body ParseHops = "'body \<Rightarrow> MessageBundle \<Rightarrow> error + HopAST"

record 'body Runner =
  hops :: 'body
  natsClient :: Client

definition sequenceHops :: "'body Runner \<Rightarrow> MessageBundle \<Rightarrow> 'body \<times> error option" where
  "sequenceHops r msgBundle =
     (case msgBundle ''hops'' of
        None \<Rightarrow> (hops r, None)
      | Some entry \<Rightarrow> (hops r, None))"

text \<open>One task of the fan-out: what it sends on the error channel, and the runner with the
  publish recorded.\<close>

definition dispatchCall :: "'body Runner \<Rightarrow> CallAST \<Rightarrow> string \<Rightarrow> error option \<times> 'body Runner" where
  "dispatchCall r call sequenceId =
     (case strings_Cut (TaskType call) ''_'' of
        (app, handler, found) \<Rightarrow>
          if \<not> found
          then (Some (Errorf (''Unable to parse app/handler from call '' @ callName call)), r)
          else
            let ((puback, err, sent), c) =
                  Publish (natsClient r) (Inputs call)
                    [ChannelRequest, sequenceId, callSlug call, app, handler];
                r' = r\<lparr>natsClient := c\<rparr>
            in (case err of
                 Some e \<Rightarrow>
                   if \<not> strings_Contains (Error e) ''err_code=10077'' then (Some e, r')
                   else (None, r')
               | None \<Rightarrow> (None, r')))"

text \<open>The tasks of one \<open>On\<close> run concurrently. \<open>goroutines\<close> runs them one after the other in
  the order given, which is the order of their sends on the error channel.\<close>

fun goroutines :: "'body Runner \<Rightarrow> CallAST list \<Rightarrow> string \<Rightarrow> error option list \<times> 'body Runner" where
  "goroutines r [] sequenceId = ([], r)"
| "goroutines r (call # calls) sequenceId =
     (let (err, r') = dispatchCall r call sequenceId;
          (errs, r'') = goroutines r' calls sequenceId
      in (err # errs, r''))"

text \<open>\<open>dispatchCalls\<close>: \<open>sched\<close> lists the indices of the calls in the order in which the
  scheduler runs their tasks, a permutation of the indices in every theorem below. After the
  wait, the channel is read and the errors joined.\<close>

definition dispatchCalls :: "'body Runner \<Rightarrow> OnAST \<Rightarrow> string \<Rightarrow> nat list \<Rightarrow> error option \<times> 'body Runner" where
  "dispatchCalls r sensor sequenceId sched =
     (let (errorchan, r') = goroutines r (map (\<lambda>i. Calls sensor ! i) sched) sequenceId
      in (foldl (\<lambda>errs err. errors_Join [errs, err]) None errorchan, r'))"

text \<open>The loop of \<open>SequenceCallback\<close> over the \<open>On\<close> blocks, then \<open>SequenceCallback\<close>; \<open>sched\<close>
  gives the schedule of the tasks of each \<open>On\<close>.\<close>

fun sensors :: "'body Runner \<Rightarrow> (OnAST \<Rightarrow> nat list) \<Rightarrow> string \<Rightarrow> OnAST list \<Rightarrow> error option
    \<Rightarrow> error option \<times> 'body Runner" where
  "sensors r sched sequenceId [] sensorErrors = (sensorErrors, r)"
| "sensors r sched sequenceId (sensor # rest) sensorErrors =
     (let (err, r') = dispatchCalls r sensor sequenceId (sched sensor)
      in sensors r' sched sequenceId rest
           (case err of Some e \<Rightarrow> multierror_Append sensorErrors e | None \<Rightarrow> sensorErrors))"

definition SequenceCallback :: "'body Runner \<Rightarrow> 'body ParseHops \<Rightarrow> (OnAST \<Rightarrow> nat list) \<Rightarrow> string
    \<Rightarrow> MessageBundle \<Rightarrow> error option \<times> 'body Runner" where
  "SequenceCallback r ParseHops sched sequenceId msgBundle =
     (case sequenceHops r msgBundle of
        (body, Some err) \<Rightarrow> (Some err, r)
      | (body, None) \<Rightarrow>
          (case ParseHops body msgBundle of
             Inl err \<Rightarrow> (Some err, r)
           | Inr hop \<Rightarrow> sensors r sched sequenceId (Ons hop) None))"

section \<open>The worker (package worker)\<close>

text \<open>\<^verbatim>\<open>time.Time\<close> as nanoseconds; the zero value is \<open>0\<close>.\<close>

type_synonym Time = nat

text \<open>Modelled from the spec: the type \<open>ResultMsg\<close> is declared outside the sources at hand; these
  are the fields the worker sets.\<close>

record ResultMsg =
  StartedAt :: Time
  FinishedAt :: Time
  Status :: string
  resultError :: "error option"

text \<open>What the supervisor's \<open>select\<close> receives, named by its channel: a tick of the ticker, the
  handler's success, the handler's error.\<close>

datatype event = tickerC | doneChan | errChan error

text \<open>A handler, as its supervisor sees one run of it: the ticks that \<open>select\<close> takes before
  the handler's return, and what it returns; or the ticks taken so far by a handler that has
  not returned.\<close>

datatype handlerRun = Returns nat "error option" | Working nat

type_synonym Handler = "Msg \<Rightarrow> handlerRun"

fun events :: "handlerRun \<Rightarrow> event list" where
  "events (Returns n None) = replicate n tickerC @ [doneChan]"
| "events (Returns n (Some err)) = replicate n tickerC @ [errChan err]"
| "events (Working n) = replicate n tickerC"

text \<open>What lies outside the worker: the parser, the clock (the successive values of
  \<^verbatim>\<open>time.Now()\<close>), the JSON encoder, the codec's response subject, and the broker's replies to
  the successive \<open>InProgress\<close> calls and to the double ack of a message.\<close>

record Outside =
  parse :: parser
  now :: "nat \<Rightarrow> Time"
  marshal :: "ResultMsg \<Rightarrow> error + bytes"
  responseSubject :: "MsgMeta \<Rightarrow> string"
  inProgressReply :: "nat \<Rightarrow> error option"
  doubleAckReply :: "error option"

record Worker =
  workerClient :: Client
  handlers :: "string \<rightharpoonup> Handler"

definition PublishResult :: "Client \<Rightarrow> (ResultMsg \<Rightarrow> error + bytes) \<Rightarrow> ResultMsg \<Rightarrow> string list
    \<Rightarrow> (error option \<times> bool) \<times> Client" where
  "PublishResult c json_Marshal result subjTokens =
     (case json_Marshal result of
        Inl err \<Rightarrow> ((Some err, False), c)
      | Inr resultBytes \<Rightarrow>
          let ((puback, err, sent), c') = Publish c resultBytes subjTokens
          in ((err, sent), c'))"

text \<open>The \<open>select\<close> loop of \<open>runHandler\<close>: \<open>n\<close> counts the \<open>InProgress\<close> calls made so far. The
  result is the final count and what the loop returns, \<open>None\<close> while it still waits.\<close>

fun selectLoop :: "(nat \<Rightarrow> error option) \<Rightarrow> nat \<Rightarrow> event list \<Rightarrow> nat \<times> error option option" where
  "selectLoop inProgress n [] = (n, None)"
| "selectLoop inProgress n (tickerC # evs) =
     (case inProgress n of
        Some err \<Rightarrow> (Suc n, Some (Some err))
      | None \<Rightarrow> selectLoop inProgress (Suc n) evs)"
| "selectLoop inProgress n (doneChan # evs) = (n, Some None)"
| "selectLoop inProgress n (errChan err # evs) = (n, Some (Some err))"

text \<open>A run of \<open>runHandler\<close>: the period given to the ticker, the calls made on the message, and
  what it returns (\<open>None\<close>: it has not returned).\<close>

record supervision =
  tickerPeriod :: Duration
  signals :: "ackAction list"
  returned :: "error option option"

text \<open>\<^verbatim>\<open>time.NewTicker\<close> panics on a period that is not positive. Go's integer division
  truncates.\<close>

definition runHandler :: "(nat \<Rightarrow> error option) \<Rightarrow> Msg \<Rightarrow> Handler \<Rightarrow> Duration \<Rightarrow> panic + supervision" where
  "runHandler inProgress msg handler deadline =
     (let period = deadline - (deadline sdiv 3)
      in if period \<le> 0 then Inl (PanicError (Errorf ''non-positive interval for NewTicker''))
         else let (n, r) = selectLoop inProgress 1 (events (handler msg))
              in Inr \<lparr>tickerPeriod = period, signals = replicate n InProgress, returned = r\<rparr>)"

text \<open>One run of the callback of \<open>Worker.Run\<close>: the calls made on the message, the handler that
  was run, how the callback ends (\<open>None\<close>: it has not returned), and the worker with its
  publishes recorded.\<close>

record requestRun =
  requestAcks :: "ackAction list"
  ranHandler :: "string option"
  ended :: "finish option"
  worker :: Worker

definition callback :: "Worker \<Rightarrow> Outside \<Rightarrow> Duration \<Rightarrow> Msg \<Rightarrow> requestRun" where
  "callback w out ackDeadline msg =
     (case parse out msg of
        Inl err \<Rightarrow> \<lparr>requestAcks = [Nak], ranHandler = None, ended = Some Returned, worker = w\<rparr>
      | Inr parsedMsg \<Rightarrow>
          let result = \<lparr>StartedAt = now out 0, FinishedAt = 0, Status = [], resultError = None\<rparr>
          in (case handlers w (HandlerName parsedMsg) of
               None \<Rightarrow>
                 \<lparr>requestAcks = [Term], ranHandler = None, ended = Some Returned, worker = w\<rparr>
             | Some handler \<Rightarrow>
                 (case runHandler (inProgressReply out) msg handler ackDeadline of
                    Inl p \<Rightarrow>
                      \<lparr>requestAcks = [], ranHandler = None, ended = Some (Panicked p), worker = w\<rparr>
                  | Inr run \<Rightarrow>
                      (case returned run of
                         None \<Rightarrow>
                           \<lparr>requestAcks = signals run, ranHandler = Some (HandlerName parsedMsg),
                            ended = None, worker = w\<rparr>
                       | Some err \<Rightarrow>
                           let (replyErr, c) =
                                 (case err of
                                    None \<Rightarrow> (None, workerClient w)
                                  | Some e \<Rightarrow>
                                      let failure = result\<lparr>Status := ''FAILURE'',
                                            resultError := Some e, FinishedAt := now out 1\<rparr>;
                                          ((err', sent), c') =
                                            PublishResult (workerClient w) (marshal out) failure
                                              [responseSubject out parsedMsg]
                                      in (err', c'));
                               w' = w\<lparr>workerClient := c\<rparr>
                           in (case replyErr of
                                Some e \<Rightarrow>
                                  \<lparr>requestAcks = signals run @ [Nak],
                                   ranHandler = Some (HandlerName parsedMsg),
                                   ended = Some Returned, worker = w'\<rparr>
                              | None \<Rightarrow>
                                  (case doubleAckReply out of
                                     Some e \<Rightarrow>
                                       \<lparr>requestAcks = signals run @ [DoubleAck],
                                        ranHandler = Some (HandlerName parsedMsg),
                                        ended = Some Returned, worker = w'\<rparr>
                                   | None \<Rightarrow>
                                       \<lparr>requestAcks = signals run @ [DoubleAck],
                                        ranHandler = Some (HandlerName parsedMsg),
                                        ended = Some Returned, worker = w'\<rparr>))))))"

text \<open>\<open>Run\<close> reads the ack deadline from the client's consumer once, then hands \<open>callback\<close> to
  \<open>Consume\<close>, which runs it on the messages one after the other. A client without a consumer
  is a nil dereference.\<close>

fun consume :: "Worker \<Rightarrow> Outside \<Rightarrow> Duration \<Rightarrow> Msg list \<Rightarrow> requestRun list" where
  "consume w out ackDeadline [] = []"
| "consume w out ackDeadline (msg # msgs) =
     (let run = callback w out ackDeadline msg
      in run # (if ended run = Some Returned then consume (worker run) out ackDeadline msgs else []))"

definition Run :: "Worker \<Rightarrow> Outside \<Rightarrow> Msg list \<Rightarrow> panic + requestRun list" where
  "Run w out msgs =
     (case Consumer (workerClient w) of
        None \<Rightarrow> Inl (RuntimePanic ''invalid memory address or nil pointer dereference'')
      | Some consumer \<Rightarrow> Inr (consume w out (AckWait (Config consumer)) msgs))"

section \<open>Notions of the specification\<close>

subsection \<open>What a bundle should hold\<close>

text \<open>The deliveries of an ordered consumer that are messages and parse, each with its parsed
  metadata.\<close>

fun parsed :: "parser \<Rightarrow> (error + Msg) list \<Rightarrow> (MsgMeta \<times> Msg) list" where
  "parsed Parse [] = []"
| "parsed Parse (Inl err # rest) = parsed Parse rest"
| "parsed Parse (Inr m # rest) =
     (case Parse m of Inl err \<Rightarrow> parsed Parse rest | Inr msg \<Rightarrow> (msg, m) # parsed Parse rest)"

text \<open>An ordered consumer delivers in strictly increasing stream sequence.\<close>

definition inStreamOrder :: "parser \<Rightarrow> (error + Msg) list \<Rightarrow> bool" where
  "inStreamOrder Parse delivered =
     sorted_wrt (<) (map (\<lambda>(msg, m). StreamSequence msg) (parsed Parse delivered))"

text \<open>The messages of the filtered sequence whose stream sequence is at most \<open>N\<close>.\<close>

definition upTo :: "parser \<Rightarrow> nat \<Rightarrow> (error + Msg) list \<Rightarrow> (MsgMeta \<times> Msg) list" where
  "upTo Parse N delivered = filter (\<lambda>(msg, m). StreamSequence msg \<le> N) (parsed Parse delivered)"

text \<open>The bundle of a list of messages, in delivery order: message id to payload, a later
  message with the same id replacing an earlier one.\<close>

definition bundleOf :: "(MsgMeta \<times> Msg) list \<Rightarrow> MessageBundle" where
  "bundleOf ms = map_of (rev (map (\<lambda>(msg, m). (MessageId msg, Data m)) ms))"

text \<open>The error of \<open>FetchMessageBundle\<close> when it reads past the triggering message.\<close>

definition BundleOverrun :: "nat \<Rightarrow> error" where
  "BundleOverrun N = Errorf (''Unable to find original message with NATS sequence of: '' @ decimal N)"

subsection \<open>Requests and replays\<close>

text \<open>The subject of the request of one call.\<close>

definition requestSubject :: "string \<Rightarrow> string \<Rightarrow> string \<Rightarrow> string \<Rightarrow> string \<Rightarrow> string" where
  "requestSubject account sequenceId slug app handler =
     account @ ''.request.'' @ sequenceId @ ''.'' @ slug @ ''.'' @ app @ ''.'' @ handler"

text \<open>The configuration of the consumer of a replay: named, not durable, filtered on the
  replay sequence, delivering all.\<close>

definition replayConfig :: "string \<Rightarrow> string \<Rightarrow> string \<Rightarrow> ConsumerConfig" where
  "replayConfig account sequenceId replaySequenceId =
     \<lparr>Name = replaySequenceId, Durable = [],
      Description = ''Replay request for sequence: '' @ [CHR 0x27] @ sequenceId @ [CHR 0x27],
      FilterSubject = ReplayFilterSubject account replaySequenceId,
      DeliverPolicy = DeliverAllPolicy, AckWait = 0\<rparr>"

subsection \<open>Supervision and dispatch\<close>

text \<open>The ticks that \<open>select\<close> takes during a run of a handler.\<close>

fun ticks :: "handlerRun \<Rightarrow> nat" where
  "ticks (Returns n r) = n"
| "ticks (Working n) = n"

text \<open>A call whose task type has the separator.\<close>

definition dispatchable :: "CallAST \<Rightarrow> bool" where
  "dispatchable call = (CHR ''_'' \<in> set (TaskType call))"

text \<open>The request of a call: its subject, with app and handler cut at the first \<open>_\<close>, and its
  inputs.\<close>

definition request :: "string \<Rightarrow> string \<Rightarrow> CallAST \<Rightarrow> string \<times> bytes" where
  "request account sequenceId call =
     (requestSubject account sequenceId (callSlug call)
        (takeWhile (\<lambda>x. x \<noteq> CHR ''_'') (TaskType call))
        (tl (dropWhile (\<lambda>x. x \<noteq> CHR ''_'') (TaskType call))),
      Inputs call)"

text \<open>A reply of the broker to a publish that does not fail the call: no error, or the error of
  the duplicate fence, by its text or by its code.\<close>

definition absorbed :: "error option \<Rightarrow> bool" where
  "absorbed reply =
     (case reply of
        None \<Rightarrow> True
      | Some e \<Rightarrow> strings_Contains (Error e) ''maximum messages per subject exceeded''
                 \<or> strings_Contains (Error e) ''err_code=10077'')"

text \<open>The publish log of the runner's client.\<close>

definition publishLog :: "'body Runner \<Rightarrow> (string \<times> bytes \<times> error option) list" where
  "publishLog r = published (JetStream (natsClient r))"

text \<open>The error of a call whose task type has no separator.\<close>

definition DispatchParseError :: "CallAST \<Rightarrow> error" where
  "DispatchParseError call = Errorf (''Unable to parse app/handler from call '' @ callName call)"

text \<open>The errors that an error holds: those joined by \<^verbatim>\<open>errors.Join\<close> or appended by
  \<^verbatim>\<open>multierror.Append\<close>, to any depth; any other error holds itself, and nil holds none.\<close>

fun joined :: "error \<Rightarrow> error list" where
  "joined (joinError es) = concat (map joined es)"
| "joined (multierror es) = concat (map joined es)"
| "joined e = [e]"

definition errorsOf :: "error option \<Rightarrow> error list" where
  "errorsOf err = (case err of None \<Rightarrow> [] | Some e \<Rightarrow> joined e)"

text \<open>The errors of the replies in a publish log that are not absorbed.\<close>

definition refused :: "(string \<times> bytes \<times> error option) list \<Rightarrow> error list" where
  "refused log = List.map_filter (\<lambda>x. if absorbed (snd (snd x)) then None else snd (snd x)) log"

section \<open>Example data\<close>

text \<open>\<^verbatim>\<open>strings.Split(s, sep)\<close> for a separator of one character.\<close>

fun strings_Split :: "string \<Rightarrow> char \<Rightarrow> string list" where
  "strings_Split [] sep = [[]]"
| "strings_Split (c # s) sep =
     (if c = sep then [] # strings_Split s sep
      else (case strings_Split s sep of [] \<Rightarrow> [[c]] | t # ts \<Rightarrow> (c # t) # ts))"

text \<open>Modelled from the spec: the message parser is not among the sources at hand. It fails when
  the subject does not begin with the expected account token, when the channel token is
  unrecognised, and when there are fewer tokens than the channel form requires (four for
  \<open>notify\<close>, six for \<open>request\<close>); otherwise the metadata are the tokens of the subject and
  the stream sequence of the message. It serves as the parser of the examples only.\<close>

definition ParseFor :: "string \<Rightarrow> parser" where
  "ParseFor account m =
     (let tokens = strings_Split (Subject m) CHR ''.''
      in if length tokens < 4 then Inl (Errorf ''InvalidMessage'')
         else if tokens ! 0 \<noteq> account then Inl (Errorf ''InvalidMessage'')
         else if tokens ! 1 = ChannelNotify
           then Inr \<lparr>AccountId = tokens ! 0, Channel = tokens ! 1, SequenceId = tokens ! 2,
                    MessageId = tokens ! 3, AppName = [], HandlerName = [],
                    StreamSequence = Sequence m\<rparr>
         else if tokens ! 1 = ChannelRequest
           then (if length tokens < 6 then Inl (Errorf ''InvalidMessage'')
                 else Inr \<lparr>AccountId = tokens ! 0, Channel = tokens ! 1, SequenceId = tokens ! 2,
                    MessageId = tokens ! 3, AppName = tokens ! 4, HandlerName = tokens ! 5,
                    StreamSequence = Sequence m\<rparr>)
         else Inl (Errorf ''InvalidMessage''))"

text \<open>The account \<open>acct\<close>: its notify messages, and what its broker holds and answers.\<close>

definition notifyMsg :: "string \<Rightarrow> string \<Rightarrow> nat \<Rightarrow> Msg" where
  "notifyMsg sequenceId messageId n =
     \<lparr>Subject = strings_Join [''acct'', ChannelNotify, sequenceId, messageId] ''.'',
      Data = ''payload of '' @ messageId, Sequence = n\<rparr>"

definition exampleDeliveries :: "string \<Rightarrow> (error + Msg) list" where
  "exampleDeliveries flt =
     (if flt = ''acct.notify.SEQ.*''
      then [Inr (notifyMsg ''SEQ'' ''event'' 1), Inr (notifyMsg ''SEQ'' ''step1'' 2),
            Inr (notifyMsg ''SEQ'' ''step2'' 3), Inr (notifyMsg ''SEQ'' ''step3'' 4)]
      else [Inr (notifyMsg ''LOST'' ''event'' 5), Inr (notifyMsg ''LOST'' ''step2'' 7)])"

definition exampleStream :: Stream where
  "exampleStream =
     \<lparr>GetLastMsgForSubject = (\<lambda>subject.
        if subject = ''acct.notify.OLD.event''
        then (Some \<lparr>rawSubject = subject, rawSequence = 1, rawData = ''{x:1}''\<rparr>, None)
        else (None, Some (Errorf ''nats: message not found'')))\<rparr>"

text \<open>The broker's replies to a publish: one retained subject is fenced, one publish times out,
  and the seeding publish of the example replay is refused.\<close>

definition fenceReply :: "string \<Rightarrow> bytes \<Rightarrow> PubAck option \<times> error option" where
  "fenceReply subject data =
     (if subject = ''acct.notify.SEQ.dup''
      then (None, Some (Errorf ''nats: maximum messages per subject exceeded''))
      else if subject = ''acct.notify.SEQ.down''
      then (None, Some (Errorf ''nats: timeout''))
      else if subject = ''acct.notify.replay-01234567-89ab-cdef-0.event''
      then (None, Some (Errorf ''nats: no response from stream''))
      else (Some \<lparr>ackStream = ''acct'', ackSequence = 8\<rparr>, None))"

definition exampleJetStream :: "(string \<Rightarrow> bytes \<Rightarrow> PubAck option \<times> error option) \<Rightarrow> JetStream" where
  "exampleJetStream reply =
     \<lparr>publishReply = (\<lambda>log. reply), published = [],
      OrderedConsumer = (\<lambda>stream conf. Inr \<lparr>Messages = Inr (exampleDeliveries (hd (FilterSubjects conf)))\<rparr>),
      Stream = (\<lambda>stream. if stream = ''acct'' then Inr exampleStream
                         else Inl (Errorf ''nats: stream not found'')),
      CreateConsumer = (\<lambda>stream conf. Inr \<lparr>Config = conf\<rparr>)\<rparr>"

definition exampleClient :: "(string \<Rightarrow> bytes \<Rightarrow> PubAck option \<times> error option) \<Rightarrow> Client" where
  "exampleClient reply = \<lparr>accountId = ''acct'', JetStream = exampleJetStream reply, Consumer = None\<rparr>"

definition notifyMeta :: "string \<Rightarrow> string \<Rightarrow> nat \<Rightarrow> MsgMeta" where
  "notifyMeta sequenceId messageId n =
     \<lparr>AccountId = ''acct'', Channel = ChannelNotify, SequenceId = sequenceId,
      MessageId = messageId, AppName = [], HandlerName = [], StreamSequence = n\<rparr>"

text \<open>A runner with its rules, calls and a schedule that runs the tasks of the first \<open>On\<close> in
  reverse.\<close>

definition exampleCall :: CallAST where
  "exampleCall = \<lparr>TaskType = ''github_create_tag'', callName = ''create_tag'',
     callSlug = ''push0-create_tag'', callIfClause = True, Inputs = ''{ref:v1}''\<rparr>"

definition exampleRunner :: "string Runner" where
  "exampleRunner = \<lparr>hops = ''on push {...}'', natsClient = exampleClient fenceReply\<rparr>"

definition exampleUuid :: string where
  "exampleUuid = ''01234567-89ab-cdef-0123-456789abcdef''"

definition exampleConnect :: "string \<Rightarrow> (error + error) + JetStream" where
  "exampleConnect natsUrl =
     (if natsUrl = ''nats://localhost:4222'' then Inr (exampleJetStream fenceReply)
      else Inl (Inl (Errorf ''nats: no servers available for connection'')))"

text \<open>A worker of the app \<open>github\<close>, the world around it, and a broker that refuses the second
  extension of a message.\<close>

definition requestMsg :: "string \<Rightarrow> nat \<Rightarrow> Msg" where
  "requestMsg handler n =
     \<lparr>Subject = strings_Join [''acct'', ChannelRequest, ''SEQ'', ''c1'', ''github'', handler] ''.'',
      Data = ''{ref:v1}'', Sequence = n\<rparr>"

definition exampleHandlers :: "string \<rightharpoonup> Handler" where
  "exampleHandlers =
     [''tag'' \<mapsto> (\<lambda>msg. Returns 0 None),
      ''slow'' \<mapsto> (\<lambda>msg. Returns 3 None),
      ''boom'' \<mapsto> (\<lambda>msg. Returns 0 (Some (Errorf ''boom'')))]"

definition exampleOutside :: Outside where
  "exampleOutside =
     \<lparr>parse = ParseFor ''acct'', now = (\<lambda>k. 1700000000 + k),
      marshal = (\<lambda>result. Inr (''{status:'' @ Status result @ ''}'')),
      responseSubject = (\<lambda>m. strings_Join [AccountId m, ChannelNotify, SequenceId m, MessageId m] ''.''),
      inProgressReply = (\<lambda>k. None),
      doubleAckReply = Some (Errorf ''nats: timeout'')\<rparr>"

definition exampleWorker :: Worker where
  "exampleWorker = \<lparr>workerClient = exampleClient fenceReply, handlers = exampleHandlers\<rparr>"

definition lostLease :: "nat \<Rightarrow> error option" where
  "lostLease k = (if k = 2 then Some (Errorf ''nats: message was already acknowledged'') else None)"

definition malformedCall :: CallAST where
  "malformedCall = \<lparr>TaskType = ''notask'', callName = ''bad'', callSlug = ''push0-bad'',
     callIfClause = True, Inputs = ''{}''\<rparr>"

definition slackCall :: CallAST where
  "slackCall = \<lparr>TaskType = ''slack_post'', callName = ''post'', callSlug = ''push1-post'',
     callIfClause = True, Inputs = ''{text:hi}''\<rparr>"

definition exampleHop :: HopAST where
  "exampleHop = \<lparr>Ons =
     [\<lparr>EventType = ''push'', onName = ''push0'', onSlug = ''push0'', onIfClause = True,
       Calls = [malformedCall, exampleCall]\<rparr>,
      \<lparr>EventType = ''push'', onName = ''push1'', onSlug = ''push1'', onIfClause = True,
       Calls = [slackCall]\<rparr>]\<rparr>"

definition exampleSched :: "OnAST \<Rightarrow> nat list" where
  "exampleSched sensor = (if onSlug sensor = ''push0'' then [1, 0] else [0])"

text \<open>A runner whose broker answers every publish with a timeout.\<close>

definition outageReply :: "string \<Rightarrow> bytes \<Rightarrow> PubAck option \<times> error option" where
  "outageReply subject data = (None, Some (Errorf ''nats: timeout''))"

definition outageRunner :: "string Runner" where
  "outageRunner = \<lparr>hops = ''on push {...}'', natsClient = exampleClient outageReply\<rparr>"

section \<open>Properties\<close>

subsection \<open>The bundle of a sequence\<close>

lemma bundleOf_Cons: "acc ++ bundleOf ((msg, m) # ms) = acc(MessageId msg \<mapsto> Data m) ++ bundleOf ms"
  by (simp add: bundleOf_def map_add_def fun_eq_iff split: option.splits)

lemma upTo_later_empty:
  assumes "\<forall>x \<in> set (parsed Parse rest). N < StreamSequence (fst x)"
  shows "upTo Parse N rest = []"
  using assms by (auto simp: upTo_def filter_empty_conv)

lemma readBack_success:
  assumes "readBack Parse newMsg delivered acc = Some (Inr b)"
    and "inStreamOrder Parse delivered"
  shows "b = acc ++ bundleOf (upTo Parse (StreamSequence newMsg) delivered)
       \<and> (\<exists>(msg, m) \<in> set (parsed Parse delivered).
             StreamSequence msg = StreamSequence newMsg \<and> b (MessageId msg) = Some (Data m))"
  using assms
proof (induction Parse newMsg delivered acc rule: readBack.induct)
  case (1 Parse newMsg msgBundle)
  then show ?case by simp
next
  case (2 Parse newMsg err rest msgBundle)
  then show ?case by simp
next
  case (3 Parse newMsg m rest msgBundle)
  from "3.prems"(1) obtain msg where p: "Parse m = Inr msg"
    by (auto split: sum.splits)
  from "3.prems"(1) p have le: "StreamSequence msg \<le> StreamSequence newMsg"
    by (auto split: if_splits)
  show ?case
  proof (cases "StreamSequence msg = StreamSequence newMsg")
    case True
    with "3.prems"(1) p have b: "b = msgBundle(MessageId msg \<mapsto> Data m)"
      by (simp add: Let_def)
    from "3.prems"(2) p True have "\<forall>x \<in> set (parsed Parse rest). StreamSequence newMsg < StreamSequence (fst x)"
      by (auto simp: inStreamOrder_def)
    then have "upTo Parse (StreamSequence newMsg) rest = []"
      by (rule upTo_later_empty)
    then have "upTo Parse (StreamSequence newMsg) (Inr m # rest) = [(msg, m)]"
      using p True by (simp add: upTo_def)
    with b p True show ?thesis
      by (simp add: bundleOf_def map_add_def fun_eq_iff)
  next
    case False
    with "3.prems"(1) p le
    have rb: "readBack Parse newMsg rest (msgBundle(MessageId msg \<mapsto> Data m)) = Some (Inr b)"
      by (simp add: Let_def)
    from "3.prems"(2) p have ord: "inStreamOrder Parse rest"
      by (simp add: inStreamOrder_def)
    have "\<not> StreamSequence newMsg < StreamSequence msg"
      using le by simp
    from "3.IH"[OF p this refl False rb ord]
    have ih: "b = msgBundle(MessageId msg \<mapsto> Data m) ++ bundleOf (upTo Parse (StreamSequence newMsg) rest)"
      and ex: "\<exists>(msg, m) \<in> set (parsed Parse rest).
             StreamSequence msg = StreamSequence newMsg \<and> b (MessageId msg) = Some (Data m)"
      by blast+
    have up: "upTo Parse (StreamSequence newMsg) (Inr m # rest) = (msg, m) # upTo Parse (StreamSequence newMsg) rest"
      using p le by (simp add: upTo_def)
    have "b = msgBundle ++ bundleOf (upTo Parse (StreamSequence newMsg) (Inr m # rest))"
      unfolding up bundleOf_Cons by (rule ih)
    moreover have "\<exists>(msg, m) \<in> set (parsed Parse (Inr m # rest)).
             StreamSequence msg = StreamSequence newMsg \<and> b (MessageId msg) = Some (Data m)"
      using ex p by auto
    ultimately show ?thesis by blast
  qed
qed

lemma readBack_overrun:
  assumes "\<forall>x \<in> set pre. \<exists>msg. Parse x = Inr msg \<and> StreamSequence msg \<noteq> StreamSequence newMsg"
    and "Parse m = Inr msg" and "StreamSequence newMsg < StreamSequence msg"
  shows "readBack Parse newMsg (map Inr pre @ Inr m # rest) acc
       = Some (Inl (BundleOverrun (StreamSequence newMsg)))"
  using assms
  by (induction pre arbitrary: acc) (auto simp: BundleOverrun_def Let_def)

lemma readBack_fails:
  assumes "\<forall>x \<in> set pre. \<forall>m' msg'. x = Inr m' \<and> Parse m' = Inr msg'
              \<longrightarrow> StreamSequence msg' \<noteq> StreamSequence newMsg"
    and "Parse m = Inr msg" and "StreamSequence newMsg < StreamSequence msg"
  shows "\<exists>err. readBack Parse newMsg (pre @ Inr m # rest) acc = Some (Inl err)"
  using assms
proof (induction pre arbitrary: acc)
  case Nil
  then show ?case by simp
next
  case (Cons x pre)
  from Cons.prems(1) have rest: "\<forall>x \<in> set pre. \<forall>m' msg'. x = Inr m' \<and> Parse m' = Inr msg'
              \<longrightarrow> StreamSequence msg' \<noteq> StreamSequence newMsg"
    by (meson list.set_intros(2))
  note ih = Cons.IH[OF rest Cons.prems(2) Cons.prems(3)]
  show ?case
  proof (cases x)
    case (Inl err)
    then show ?thesis by simp
  next
    case (Inr m')
    show ?thesis
    proof (cases "Parse m'")
      case (Inl err)
      with Inr show ?thesis by simp
    next
      case inr: (Inr msg')
      have "x \<in> set (x # pre)" by simp
      with Cons.prems(1) have "\<forall>m' msg'. x = Inr m' \<and> Parse m' = Inr msg'
              \<longrightarrow> StreamSequence msg' \<noteq> StreamSequence newMsg"
        by (rule bspec)
      with Inr inr have ne: "StreamSequence msg' \<noteq> StreamSequence newMsg"
        by blast
      show ?thesis
      proof (cases "StreamSequence newMsg < StreamSequence msg'")
        case True
        with Inr inr show ?thesis by simp
      next
        case False
        with Inr inr ne
        have "readBack Parse newMsg ((x # pre) @ Inr m # rest) acc
            = readBack Parse newMsg (pre @ Inr m # rest) (acc(MessageId msg' \<mapsto> Data m'))"
          by (simp add: Let_def)
        with ih[of "acc(MessageId msg' \<mapsto> Data m')"] show ?thesis
          by (simp only:)
      qed
    qed
  qed
qed

lemma parsed_unique:
  assumes "inStreamOrder Parse delivered"
    and "(a, m) \<in> set (parsed Parse delivered)" and "(a', m') \<in> set (parsed Parse delivered)"
    and "StreamSequence a = StreamSequence a'"
  shows "(a, m) = (a', m')"
proof -
  from assms(1) have "distinct (map (\<lambda>(msg, m). StreamSequence msg) (parsed Parse delivered))"
    unfolding inStreamOrder_def by (simp add: strict_sorted_iff)
  then have "inj_on (\<lambda>(msg, m). StreamSequence msg) (set (parsed Parse delivered))"
    by (simp add: distinct_map)
  from inj_onD[OF this, of "(a, m)" "(a', m')"] assms(2-4) show ?thesis
    by simp
qed

text \<open>Claim C1. Let \<open>delivered\<close> be what the ordered consumer created by \<open>FetchMessageBundle\<close>
  with the sequence filter of the triggering message \<open>M\<close> (stream sequence \<open>N\<close>) delivers.
  If the deliveries come in stream order and \<open>FetchMessageBundle\<close> returns a bundle, the bundle
  maps message ids to payloads for exactly the delivered messages of stream sequence at most
  \<open>N\<close>, a later message replacing an earlier one of the same id; one of them has stream
  sequence \<open>N\<close>, and when \<open>M\<close> is among the deliveries its id is mapped to its payload. If the
  read comes to a message of stream sequence above \<open>N\<close> before one of sequence \<open>N\<close>,
  \<open>FetchMessageBundle\<close> fails with an error, which is the overrun error when every delivery
  before that message was a message that parsed.\<close>
theorem FetchMessageBundle_bundle:
  assumes "OrderedConsumer (JetStream c) (accountId c)
             \<lparr>FilterSubjects = [SequenceFilter newMsg], orderedDeliverPolicy = DeliverAllPolicy\<rparr>
           = Inr cons"
    and "Messages cons = Inr delivered"
  shows "(\<forall>b. inStreamOrder Parse delivered
              \<and> FetchMessageBundle c Parse newMsg = Some (Inr b) \<longrightarrow>
            b = bundleOf (upTo Parse (StreamSequence newMsg) delivered)
            \<and> (\<exists>(msg, m) \<in> set (parsed Parse delivered).
                  StreamSequence msg = StreamSequence newMsg \<and> b (MessageId msg) = Some (Data m))
            \<and> (\<forall>m. (newMsg, m) \<in> set (parsed Parse delivered)
                  \<longrightarrow> b (MessageId newMsg) = Some (Data m)))
       \<and> (\<forall>pre m msg rest.
             delivered = pre @ Inr m # rest
             \<and> (\<forall>x \<in> set pre. \<forall>m' msg'. x = Inr m' \<and> Parse m' = Inr msg'
                    \<longrightarrow> StreamSequence msg' \<noteq> StreamSequence newMsg)
             \<and> Parse m = Inr msg \<and> StreamSequence newMsg < StreamSequence msg \<longrightarrow>
           (\<exists>err. FetchMessageBundle c Parse newMsg = Some (Inl err)))
       \<and> (\<forall>pre m msg rest.
             delivered = map Inr pre @ Inr m # rest
             \<and> (\<forall>x \<in> set pre. \<exists>msg'. Parse x = Inr msg'
                    \<and> StreamSequence msg' \<noteq> StreamSequence newMsg)
             \<and> Parse m = Inr msg \<and> StreamSequence newMsg < StreamSequence msg \<longrightarrow>
           FetchMessageBundle c Parse newMsg
             = Some (Inl (BundleOverrun (StreamSequence newMsg))))"
proof -
  have fetch: "FetchMessageBundle c Parse newMsg = readBack Parse newMsg delivered Map.empty"
    using assms by (simp add: FetchMessageBundle_def)
  have A: "b = bundleOf (upTo Parse (StreamSequence newMsg) delivered)
            \<and> (\<exists>(msg, m) \<in> set (parsed Parse delivered).
                  StreamSequence msg = StreamSequence newMsg \<and> b (MessageId msg) = Some (Data m))
            \<and> (\<forall>m. (newMsg, m) \<in> set (parsed Parse delivered)
                  \<longrightarrow> b (MessageId newMsg) = Some (Data m))"
    if ord: "inStreamOrder Parse delivered"
      and ok: "FetchMessageBundle c Parse newMsg = Some (Inr b)" for b
  proof -
    from ok fetch have "readBack Parse newMsg delivered Map.empty = Some (Inr b)"
      by simp
    note rs = readBack_success[OF this ord]
    have eq: "b = bundleOf (upTo Parse (StreamSequence newMsg) delivered)"
      using conjunct1[OF rs] by (simp only: empty_map_add)
    have ex: "\<exists>(msg, m) \<in> set (parsed Parse delivered).
                  StreamSequence msg = StreamSequence newMsg \<and> b (MessageId msg) = Some (Data m)"
      by (rule conjunct2[OF rs])
    have "b (MessageId newMsg) = Some (Data m)" if "(newMsg, m) \<in> set (parsed Parse delivered)" for m
    proof -
      from ex obtain msg m' where in': "(msg, m') \<in> set (parsed Parse delivered)"
        and s: "StreamSequence msg = StreamSequence newMsg" and b: "b (MessageId msg) = Some (Data m')"
        by blast
      from parsed_unique[OF ord in' that s] b show ?thesis
        by simp
    qed
    then have "\<forall>m. (newMsg, m) \<in> set (parsed Parse delivered)
                  \<longrightarrow> b (MessageId newMsg) = Some (Data m)"
      by blast
    with eq ex show ?thesis by (intro conjI)
  qed
  have B: "\<exists>err. FetchMessageBundle c Parse newMsg = Some (Inl err)"
    if "delivered = pre @ Inr m # rest"
      and "\<forall>x \<in> set pre. \<forall>m' msg'. x = Inr m' \<and> Parse m' = Inr msg'
              \<longrightarrow> StreamSequence msg' \<noteq> StreamSequence newMsg"
      and "Parse m = Inr msg" and "StreamSequence newMsg < StreamSequence msg"
    for pre m msg rest
    unfolding fetch that(1) using that(2-4) by (rule readBack_fails)
  have C: "FetchMessageBundle c Parse newMsg
             = Some (Inl (BundleOverrun (StreamSequence newMsg)))"
    if "delivered = map Inr pre @ Inr m # rest"
      and "\<forall>x \<in> set pre. \<exists>msg'. Parse x = Inr msg' \<and> StreamSequence msg' \<noteq> StreamSequence newMsg"
      and "Parse m = Inr msg" and "StreamSequence newMsg < StreamSequence msg"
    for pre m msg rest
    using that fetch readBack_overrun[of pre Parse newMsg m msg rest Map.empty] by simp
  show ?thesis
  proof (intro conjI allI impI)
    fix b
    assume "inStreamOrder Parse delivered \<and> FetchMessageBundle c Parse newMsg = Some (Inr b)"
    then have h: "inStreamOrder Parse delivered" "FetchMessageBundle c Parse newMsg = Some (Inr b)"
      by simp_all
    note a = A[OF h]
    show "b = bundleOf (upTo Parse (StreamSequence newMsg) delivered)"
      by (rule a[THEN conjunct1])
    show "\<exists>(msg, m) \<in> set (parsed Parse delivered).
            StreamSequence msg = StreamSequence newMsg \<and> b (MessageId msg) = Some (Data m)"
      by (rule a[THEN conjunct2, THEN conjunct1])
    fix m
    assume "(newMsg, m) \<in> set (parsed Parse delivered)"
    with a[THEN conjunct2, THEN conjunct2] show "b (MessageId newMsg) = Some (Data m)"
      by (simp only:)
  next
    fix pre m msg rest
    assume "delivered = pre @ Inr m # rest
             \<and> (\<forall>x \<in> set pre. \<forall>m' msg'. x = Inr m' \<and> Parse m' = Inr msg'
                    \<longrightarrow> StreamSequence msg' \<noteq> StreamSequence newMsg)
             \<and> Parse m = Inr msg \<and> StreamSequence newMsg < StreamSequence msg"
    then show "\<exists>err. FetchMessageBundle c Parse newMsg = Some (Inl err)"
      by (elim conjE) (rule B)
  next
    fix pre m msg rest
    assume "delivered = map Inr pre @ Inr m # rest
             \<and> (\<forall>x \<in> set pre. \<exists>msg'. Parse x = Inr msg'
                    \<and> StreamSequence msg' \<noteq> StreamSequence newMsg)
             \<and> Parse m = Inr msg \<and> StreamSequence newMsg < StreamSequence msg"
    then show "FetchMessageBundle c Parse newMsg
             = Some (Inl (BundleOverrun (StreamSequence newMsg)))"
      by (elim conjE) (rule C)
  qed
qed

lemma ParseFor_notifyMsg:
  "ParseFor ''acct'' (notifyMsg ''SEQ'' ''event'' n) = Inr (notifyMeta ''SEQ'' ''event'' n)"
  "ParseFor ''acct'' (notifyMsg ''SEQ'' ''step1'' n) = Inr (notifyMeta ''SEQ'' ''step1'' n)"
  "ParseFor ''acct'' (notifyMsg ''SEQ'' ''step2'' n) = Inr (notifyMeta ''SEQ'' ''step2'' n)"
  "ParseFor ''acct'' (notifyMsg ''SEQ'' ''step3'' n) = Inr (notifyMeta ''SEQ'' ''step3'' n)"
  "ParseFor ''acct'' (notifyMsg ''LOST'' ''event'' n) = Inr (notifyMeta ''LOST'' ''event'' n)"
  "ParseFor ''acct'' (notifyMsg ''LOST'' ''step2'' n) = Inr (notifyMeta ''LOST'' ''step2'' n)"
  by (simp_all add: ParseFor_def notifyMsg_def notifyMeta_def ChannelNotify_def Let_def)

lemma example_filters:
  "SequenceFilter (notifyMeta ''SEQ'' x n) = ''acct.notify.SEQ.*''"
  "SequenceFilter (notifyMeta ''LOST'' x n) = ''acct.notify.LOST.*''"
  by (simp_all add: SequenceFilter_def notifyMeta_def ChannelNotify_def)

lemma example_fields:
  "StreamSequence (notifyMeta sq x n) = n" "MessageId (notifyMeta sq x n) = x"
  "Data (notifyMsg sq x n) = ''payload of '' @ x"
  by (simp_all add: notifyMeta_def notifyMsg_def)

text \<open>The bundle reconstruction scenario: the stream holds \<open>event\<close>, \<open>step1\<close>, \<open>step2\<close>,
  \<open>step3\<close>, and the delivery of \<open>step2\<close> triggers; and a trigger whose message is gone from
  the stream.\<close>
theorem FetchMessageBundle_bundle_witness:
  "FetchMessageBundle (exampleClient fenceReply) (ParseFor ''acct'') (notifyMeta ''SEQ'' ''step2'' 3)
     = Some (Inr [''event'' \<mapsto> ''payload of event'', ''step1'' \<mapsto> ''payload of step1'',
                  ''step2'' \<mapsto> ''payload of step2''])
   \<and> inStreamOrder (ParseFor ''acct'') (exampleDeliveries ''acct.notify.SEQ.*'')
   \<and> [''event'' \<mapsto> ''payload of event'', ''step1'' \<mapsto> ''payload of step1'',
       ''step2'' \<mapsto> ''payload of step2'']
     = bundleOf (upTo (ParseFor ''acct'') 3 (exampleDeliveries ''acct.notify.SEQ.*''))
   \<and> FetchMessageBundle (exampleClient fenceReply) (ParseFor ''acct'') (notifyMeta ''LOST'' ''step1'' 6)
     = Some (Inl (BundleOverrun 6))"
proof -
  let ?P = "ParseFor ''acct''"
  let ?c = "exampleClient fenceReply"
  let ?b = "[''event'' \<mapsto> ''payload of event'', ''step1'' \<mapsto> ''payload of step1'',
             ''step2'' \<mapsto> ''payload of step2'']"
  have cons: "OrderedConsumer (JetStream ?c) (accountId ?c)
      \<lparr>FilterSubjects = [SequenceFilter (notifyMeta sq x n)], orderedDeliverPolicy = DeliverAllPolicy\<rparr>
      = Inr \<lparr>Messages = Inr (exampleDeliveries (SequenceFilter (notifyMeta sq x n)))\<rparr>" for sq x n
    by (simp add: exampleClient_def exampleJetStream_def)
  have ord: "inStreamOrder ?P (exampleDeliveries ''acct.notify.SEQ.*'')"
    by (simp add: inStreamOrder_def exampleDeliveries_def ParseFor_notifyMsg example_fields)
  have run: "FetchMessageBundle ?c ?P (notifyMeta ''SEQ'' ''step2'' 3) = Some (Inr ?b)"
    by (simp add: FetchMessageBundle_def exampleClient_def exampleJetStream_def example_filters
        exampleDeliveries_def ParseFor_notifyMsg example_fields)
  note seq = example_fields(1)
  have msgs: "Messages \<lparr>Messages = Inr ds\<rparr> = Inr ds" for ds :: "(error + Msg) list"
    by simp
  from FetchMessageBundle_bundle[OF cons[of "''SEQ''" "''step2''" 3] msgs, where Parse = ?P] ord run
  have "?b = bundleOf (upTo ?P 3 (exampleDeliveries ''acct.notify.SEQ.*''))"
    by (simp add: example_filters seq)
  moreover
  have "FetchMessageBundle ?c ?P (notifyMeta ''LOST'' ''step1'' 6) = Some (Inl (BundleOverrun 6))"
    using FetchMessageBundle_bundle[OF cons[of "''LOST''" "''step1''" 6] msgs, where Parse = ?P,
        THEN conjunct2, THEN conjunct2, rule_format,
        where pre = "[notifyMsg ''LOST'' ''event'' 5]"
        and m = "notifyMsg ''LOST'' ''step2'' 7" and msg = "notifyMeta ''LOST'' ''step2'' 7"
        and rest = "[]"]
    by (simp add: example_filters example_fields ParseFor_notifyMsg exampleDeliveries_def)
  ultimately show ?thesis
    using ord run by simp
qed

subsection \<open>The publish contract\<close>

lemma Publish_log:
  "\<exists>subject reply. published (JetStream (snd (Publish c data subjTokens)))
      = published (JetStream c) @ [(subject, data, reply)]"
  by (auto simp: Publish_def js_Publish_def Let_def split: prod.splits option.splits)

text \<open>Claim C2. Every call of \<open>Publish\<close> sends one publish to the broker. When the broker answers
  with an error whose text contains \<open>maximum messages per subject exceeded\<close>, \<open>Publish\<close>
  returns no error and \<open>sent = False\<close>; when it answers with any other error, that error is
  returned; when it answers without error, \<open>Publish\<close> returns no error and \<open>sent = True\<close>.\<close>
theorem Publish_contract:
  assumes "Publish c data subjTokens = ((puback, err, sent), c')"
  shows "\<exists>subject reply.
           published (JetStream c') = published (JetStream c) @ [(subject, data, reply)]
         \<and> publishReply (JetStream c) (published (JetStream c)) subject data = (puback, reply)
         \<and> (\<forall>e. reply = Some e
                  \<and> strings_Contains (Error e) ''maximum messages per subject exceeded''
                \<longrightarrow> err = None \<and> \<not> sent)
         \<and> (\<forall>e. reply = Some e
                  \<and> \<not> strings_Contains (Error e) ''maximum messages per subject exceeded''
                \<longrightarrow> err = Some e)
         \<and> (reply = None \<longrightarrow> err = None \<and> sent)"
  using assms
  by (auto simp: Publish_def js_Publish_def Let_def split: prod.splits option.splits if_splits)

lemma fence_texts:
  "strings_Contains ''nats: maximum messages per subject exceeded'' ''maximum messages per subject exceeded''"
  "\<not> strings_Contains ''nats: timeout'' ''maximum messages per subject exceeded''"
  by (simp_all add: strings_Contains_def)

lemma example_Publish:
  "Publish (exampleClient fenceReply) data [ChannelNotify, ''SEQ'', m] =
     (let (puback, err) = fenceReply (''acct.notify.SEQ.'' @ m) data;
          c' = (exampleClient fenceReply)\<lparr>JetStream := (exampleJetStream fenceReply)
                 \<lparr>published := [(''acct.notify.SEQ.'' @ m, data, err)]\<rparr>\<rparr>
      in case err of
           None \<Rightarrow> ((puback, None, True), c')
         | Some e \<Rightarrow>
             if strings_Contains (Error e) ''maximum messages per subject exceeded''
             then ((puback, None, False), c')
             else ((puback, Some e, True), c'))"
  by (simp add: Publish_def js_Publish_def exampleClient_def exampleJetStream_def ChannelNotify_def
      Let_def split: prod.splits)

text \<open>A duplicate, a broker failure and a successful publish.\<close>
theorem Publish_contract_witness:
  "fst (Publish (exampleClient fenceReply) ''x'' [ChannelNotify, ''SEQ'', ''dup'']) = (None, None, False)
   \<and> fst (Publish (exampleClient fenceReply) ''x'' [ChannelNotify, ''SEQ'', ''down''])
       = (None, Some (Errorf ''nats: timeout''), True)
   \<and> fst (Publish (exampleClient fenceReply) ''x'' [ChannelNotify, ''SEQ'', ''M1''])
       = (Some \<lparr>ackStream = ''acct'', ackSequence = 8\<rparr>, None, True)"
proof -
  let ?c = "exampleClient fenceReply"
  have reply: "publishReply (JetStream ?c) (published (JetStream ?c)) s d = fenceReply s d" for s d
    by (simp add: exampleClient_def exampleJetStream_def)
  have log: "published (JetStream ?c) = []"
    by (simp add: exampleClient_def exampleJetStream_def)
  have "fst (Publish ?c ''x'' [ChannelNotify, ''SEQ'', m]) = r"
    if m: "fenceReply (''acct.notify.SEQ.'' @ m) ''x'' = (pa, rep)"
      and r: "r = (pa, case rep of None \<Rightarrow> (None, True)
                | Some e \<Rightarrow> if strings_Contains (Error e) ''maximum messages per subject exceeded''
                    then (None, False) else (Some e, True))"
    for m r pa rep
  proof -
    obtain puback err sent c' where run: "Publish ?c ''x'' [ChannelNotify, ''SEQ'', m] = ((puback, err, sent), c')"
      by (metis prod.exhaust)
    from Publish_contract[OF run] obtain subject reply' where
      l: "published (JetStream c') = published (JetStream ?c) @ [(subject, ''x'', reply')]"
      and p: "publishReply (JetStream ?c) (published (JetStream ?c)) subject ''x'' = (puback, reply')"
      and dup: "\<forall>e. reply' = Some e
                  \<and> strings_Contains (Error e) ''maximum messages per subject exceeded''
                \<longrightarrow> err = None \<and> \<not> sent"
      and other: "\<forall>e. reply' = Some e
                  \<and> \<not> strings_Contains (Error e) ''maximum messages per subject exceeded''
                \<longrightarrow> err = Some e"
      and ok: "reply' = None \<longrightarrow> err = None \<and> sent"
      by blast
    from run have "published (JetStream c') = [(''acct.notify.SEQ.'' @ m, ''x'', rep)]"
      using m by (auto simp: example_Publish Let_def split: option.splits if_splits)
    with l log have "subject = ''acct.notify.SEQ.'' @ m" "reply' = rep"
      by simp_all
    with p reply m have "puback = pa" by simp
    from run m have "sent = (case rep of None \<Rightarrow> True | Some e \<Rightarrow>
        \<not> strings_Contains (Error e) ''maximum messages per subject exceeded'')"
      by (auto simp: example_Publish Let_def split: option.splits if_splits)
    with dup other ok \<open>reply' = rep\<close> \<open>puback = pa\<close> run r show ?thesis
      by (auto split: option.splits)
  qed
  note w = this
  have "fst (Publish ?c ''x'' [ChannelNotify, ''SEQ'', ''dup'']) = (None, None, False)"
    by (rule w[where pa = None
          and rep = "Some (Errorf ''nats: maximum messages per subject exceeded'')"])
      (simp_all add: fenceReply_def fence_texts)
  moreover have "fst (Publish ?c ''x'' [ChannelNotify, ''SEQ'', ''down''])
       = (None, Some (Errorf ''nats: timeout''), True)"
    by (rule w[where pa = None and rep = "Some (Errorf ''nats: timeout'')"])
      (simp_all add: fenceReply_def fence_texts)
  moreover have "fst (Publish ?c ''x'' [ChannelNotify, ''SEQ'', ''M1''])
       = (Some \<lparr>ackStream = ''acct'', ackSequence = 8\<rparr>, None, True)"
    by (rule w[where pa = "Some \<lparr>ackStream = ''acct'', ackSequence = 8\<rparr>" and rep = None])
      (simp_all add: fenceReply_def)
  ultimately show ?thesis
    by (intro conjI)
qed

subsection \<open>The subject of a request\<close>

lemma strings_Index_char:
  "strings_Index s [c] =
     (if c \<in> set s then Some (length (takeWhile (\<lambda>x. x \<noteq> c) s)) else None)"
  by (induction s) auto

lemma strings_Cut_char:
  "strings_Cut s [c] =
     (if c \<in> set s then (takeWhile (\<lambda>x. x \<noteq> c) s, tl (dropWhile (\<lambda>x. x \<noteq> c) s), True)
      else (s, [], False))"
proof -
  have "drop (Suc (length (takeWhile (\<lambda>x. x \<noteq> c) s))) s = tl (dropWhile (\<lambda>x. x \<noteq> c) s)"
    by (simp add: dropWhile_eq_drop drop_Suc tl_drop)
  then show ?thesis
    by (simp add: strings_Cut_def strings_Index_char takeWhile_eq_take[symmetric])
qed

lemma cut_parts:
  assumes "c \<in> set s"
  shows "s = takeWhile (\<lambda>x. x \<noteq> c) s @ [c] @ tl (dropWhile (\<lambda>x. x \<noteq> c) s)"
    and "c \<notin> set (takeWhile (\<lambda>x. x \<noteq> c) s)"
proof -
  from assms have "dropWhile (\<lambda>x. x \<noteq> c) s \<noteq> []"
    by simp
  moreover from this have "hd (dropWhile (\<lambda>x. x \<noteq> c) s) = c"
    using hd_dropWhile[of "\<lambda>x. x \<noteq> c" s] by simp
  ultimately have "dropWhile (\<lambda>x. x \<noteq> c) s = c # tl (dropWhile (\<lambda>x. x \<noteq> c) s)"
    by (cases "dropWhile (\<lambda>x. x \<noteq> c) s") auto
  with takeWhile_dropWhile_id[of "\<lambda>x. x \<noteq> c" s]
  show "s = takeWhile (\<lambda>x. x \<noteq> c) s @ [c] @ tl (dropWhile (\<lambda>x. x \<noteq> c) s)"
    by simp
  show "c \<notin> set (takeWhile (\<lambda>x. x \<noteq> c) s)"
    by (auto dest: set_takeWhileD)
qed

lemma Publish_tokens:
  "Publish c data (t1 # t2 # ts) =
     (let subject = strings_Join (accountId c # t1 # t2 # ts) ''.'';
          (puback, err) = publishReply (JetStream c) (published (JetStream c)) subject data;
          c' = c\<lparr>JetStream := (JetStream c)\<lparr>published := published (JetStream c) @ [(subject, data, err)]\<rparr>\<rparr>
      in case err of
           None \<Rightarrow> ((puback, None, True), c')
         | Some e \<Rightarrow>
             if strings_Contains (Error e) ''maximum messages per subject exceeded''
             then ((puback, None, False), c')
             else ((puback, Some e, True), c'))"
  by (simp add: Publish_def js_Publish_def Let_def split: prod.splits)

lemma dispatchCall_found:
  assumes "CHR ''_'' \<in> set (TaskType call)"
  shows "dispatchCall r call sequenceId =
     (let app = takeWhile (\<lambda>x. x \<noteq> CHR ''_'') (TaskType call);
          handler = tl (dropWhile (\<lambda>x. x \<noteq> CHR ''_'') (TaskType call));
          subject = requestSubject (accountId (natsClient r)) sequenceId (callSlug call) app handler;
          js = JetStream (natsClient r);
          err = snd (publishReply js (published js) subject (Inputs call));
          r' = r\<lparr>natsClient := (natsClient r)\<lparr>JetStream :=
                  js\<lparr>published := published js @ [(subject, Inputs call, err)]\<rparr>\<rparr>\<rparr>
      in (case err of None \<Rightarrow> None
          | Some e \<Rightarrow> if strings_Contains (Error e) ''maximum messages per subject exceeded''
                        \<or> strings_Contains (Error e) ''err_code=10077'' then None else Some e, r'))"
  using assms
  by (auto simp: dispatchCall_def strings_Cut_char Publish_tokens requestSubject_def
      ChannelRequest_def Let_def split: prod.splits option.splits)

text \<open>Claim C7. For a call whose task type contains \<open>_\<close>, \<open>dispatchCall\<close> cuts the task type
  into app and handler at the first \<open>_\<close> and publishes the inputs of the call on the subject
  \<open>{account}.request.{sequence_id}.{call_slug}.{app}.{handler}\<close>.\<close>
theorem dispatchCall_subject:
  assumes "CHR ''_'' \<in> set (TaskType call)"
  shows "\<exists>app handler reply.
           TaskType call = app @ ''_'' @ handler \<and> CHR ''_'' \<notin> set app
         \<and> published (JetStream (natsClient (snd (dispatchCall r call sequenceId))))
           = published (JetStream (natsClient r))
             @ [(accountId (natsClient r) @ ''.request.'' @ sequenceId @ ''.'' @ callSlug call
                   @ ''.'' @ app @ ''.'' @ handler,
                 Inputs call, reply)]"
proof -
  let ?app = "takeWhile (\<lambda>x. x \<noteq> CHR ''_'') (TaskType call)"
  let ?handler = "tl (dropWhile (\<lambda>x. x \<noteq> CHR ''_'') (TaskType call))"
  from cut_parts[OF assms] have "TaskType call = ?app @ ''_'' @ ?handler" "CHR ''_'' \<notin> set ?app"
    by simp_all
  moreover have "\<exists>reply. published (JetStream (natsClient (snd (dispatchCall r call sequenceId))))
           = published (JetStream (natsClient r))
             @ [(accountId (natsClient r) @ ''.request.'' @ sequenceId @ ''.'' @ callSlug call
                   @ ''.'' @ ?app @ ''.'' @ ?handler,
                 Inputs call, reply)]"
    by (simp add: dispatchCall_found[OF assms] Let_def requestSubject_def)
  ultimately show ?thesis by blast
qed

text \<open>The task type \<open>github_create_tag\<close> gives app \<open>github\<close> and handler \<open>create_tag\<close>.\<close>
theorem dispatchCall_subject_witness:
  "CHR ''_'' \<in> set (TaskType exampleCall)
   \<and> published (JetStream (natsClient (snd (dispatchCall exampleRunner exampleCall ''SEQ''))))
       = [(''acct.request.SEQ.push0-create_tag.github.create_tag'', ''{ref:v1}'', None)]
   \<and> (\<exists>app handler reply.
           TaskType exampleCall = app @ ''_'' @ handler \<and> CHR ''_'' \<notin> set app
         \<and> published (JetStream (natsClient (snd (dispatchCall exampleRunner exampleCall ''SEQ''))))
           = published (JetStream (natsClient exampleRunner))
             @ [(accountId (natsClient exampleRunner) @ ''.request.'' @ ''SEQ'' @ ''.''
                   @ callSlug exampleCall @ ''.'' @ app @ ''.'' @ handler,
                 Inputs exampleCall, reply)])"
proof -
  have h: "CHR ''_'' \<in> set (TaskType exampleCall)"
    by (simp add: exampleCall_def)
  have "published (JetStream (natsClient (snd (dispatchCall exampleRunner exampleCall ''SEQ''))))
       = [(''acct.request.SEQ.push0-create_tag.github.create_tag'', ''{ref:v1}'', None)]"
    by (simp add: dispatchCall_found[OF h] Let_def)
      (simp add: exampleCall_def exampleRunner_def exampleClient_def exampleJetStream_def
        requestSubject_def fenceReply_def)
  with h dispatchCall_subject[OF h, of exampleRunner "''SEQ''"] show ?thesis
    by blast
qed

subsection \<open>The rule body of a callback\<close>

text \<open>Claim C5 as stated, that the rule body is the \<open>hops\<close> entry of the bundle when the bundle
  has one, fails: with rule bodies given by their text, a bundle whose \<open>hops\<close> entry differs
  from the preloaded body still evaluates the preloaded body.\<close>
theorem sequenceHops_bundle_entry_counterexample:
  "fst (sequenceHops exampleRunner [''hops'' \<mapsto> ''on push { call other_task {} }''])
     \<noteq> ''on push { call other_task {} }''
   \<and> fst (SequenceCallback exampleRunner (\<lambda>body bundle. Inl (Errorf body)) (\<lambda>sensor. []) ''SEQ''
        [''hops'' \<mapsto> ''on push { call other_task {} }''])
     = Some (Errorf ''on push {...}'')"
  by (simp add: sequenceHops_def SequenceCallback_def exampleRunner_def)

text \<open>Claim C5, amended. For every sequence callback, the rule body evaluated is the runner's
  preloaded default body, whether or not a key \<open>hops\<close> is present in the message bundle.\<close>
theorem sequenceHops_preloaded:
  "sequenceHops r msgBundle = (hops r, None)
   \<and> SequenceCallback r ParseHops sched sequenceId msgBundle
     = (case ParseHops (hops r) msgBundle of
          Inl err \<Rightarrow> (Some err, r)
        | Inr hop \<Rightarrow> sensors r sched sequenceId (Ons hop) None)"
  by (simp add: sequenceHops_def SequenceCallback_def split: option.splits)

subsection \<open>Replay construction\<close>

lemma initReplayConsumer_missing:
  assumes "Stream (JetStream c) account = Inr stream"
    and "fst (GetLastMsgForSubject stream (SourceEventSubject account sequenceId)) = None
         \<or> snd (GetLastMsgForSubject stream (SourceEventSubject account sequenceId)) \<noteq> None"
  shows "\<exists>err. initReplayConsumer c uuid account sequenceId = Inr (Some err, c)"
  using assms
  by (auto simp: initReplayConsumer_def Let_def split: prod.splits option.splits)

lemma initReplayConsumer_created:
  assumes "Stream (JetStream c) account = Inr stream"
    and "GetLastMsgForSubject stream (SourceEventSubject account sequenceId) = (Some rawMsg, None)"
    and "20 \<le> length uuid"
    and "CreateConsumer (JetStream c) account
           (replayConfig account sequenceId (''replay-'' @ take 20 uuid)) = Inr consumer"
  shows "initReplayConsumer c uuid account sequenceId =
     Inr (None, c\<lparr>JetStream := (JetStream c)\<lparr>published := published (JetStream c)
            @ [(accountId c @ ''.notify.'' @ ''replay-'' @ take 20 uuid @ ''.event'', rawData rawMsg,
                snd (publishReply (JetStream c) (published (JetStream c))
                  (accountId c @ ''.notify.'' @ ''replay-'' @ take 20 uuid @ ''.event'')
                  (rawData rawMsg)))]\<rparr>,
          Consumer := Some consumer\<rparr>)"
  using assms
  by (auto simp: initReplayConsumer_def replayConfig_def ChannelNotify_def Let_def Publish_tokens
      split: prod.splits option.splits)

lemma codec_forms:
  "SourceEventSubject account sequenceId = account @ ''.notify.'' @ sequenceId @ ''.event''"
  "ReplayFilterSubject account replaySequenceId = account @ ''.notify.'' @ replaySequenceId @ ''.*''"
  by (simp_all add: SourceEventSubject_def ReplayFilterSubject_def ChannelNotify_def)

text \<open>Claim C9. Replay construction for the original sequence id \<open>S\<close>, on a client of the
  account whose stream is found, with a uuid of 36 characters. It fails, leaving the client as
  it was, when the broker has no last message on \<open>{account}.notify.{S}.event\<close> (none, or an
  error). Otherwise the replay sequence id is \<open>replay-\<close> followed by 20 characters; the
  consumer asked of the broker is named by it, not durable, filtered on
  \<open>{account}.notify.{replay_sequence_id}.*\<close> and delivers all; and when the broker creates it, it
  becomes the client's consumer and the source payload is published on
  \<open>{account}.notify.{replay_sequence_id}.event\<close>.\<close>
theorem initReplayConsumer_construction:
  assumes "accountId c = account" and "Stream (JetStream c) account = Inr stream"
    and "length uuid = 36"
  shows "(fst (GetLastMsgForSubject stream (account @ ''.notify.'' @ sequenceId @ ''.event'')) = None
          \<or> snd (GetLastMsgForSubject stream (account @ ''.notify.'' @ sequenceId @ ''.event''))
               \<noteq> None
          \<longrightarrow> (\<exists>err. initReplayConsumer c uuid account sequenceId = Inr (Some err, c)))
       \<and> (\<forall>rawMsg consumer.
            GetLastMsgForSubject stream (account @ ''.notify.'' @ sequenceId @ ''.event'')
              = (Some rawMsg, None)
            \<and> CreateConsumer (JetStream c) account
                \<lparr>Name = ''replay-'' @ take 20 uuid, Durable = [],
                 Description = ''Replay request for sequence: '' @ [CHR 0x27] @ sequenceId
                   @ [CHR 0x27],
                 FilterSubject = account @ ''.notify.'' @ ''replay-'' @ take 20 uuid @ ''.*'',
                 DeliverPolicy = DeliverAllPolicy, AckWait = 0\<rparr> = Inr consumer
            \<longrightarrow> length (take 20 uuid) = 20
              \<and> (\<exists>c' reply.
                    initReplayConsumer c uuid account sequenceId = Inr (None, c')
                  \<and> Consumer c' = Some consumer
                  \<and> published (JetStream c') = published (JetStream c)
                      @ [(account @ ''.notify.'' @ ''replay-'' @ take 20 uuid @ ''.event'',
                          rawData rawMsg, reply)]))"
proof (intro conjI impI allI)
  assume "fst (GetLastMsgForSubject stream (account @ ''.notify.'' @ sequenceId @ ''.event'')) = None
          \<or> snd (GetLastMsgForSubject stream (account @ ''.notify.'' @ sequenceId @ ''.event''))
               \<noteq> None"
  with assms(2) show "\<exists>err. initReplayConsumer c uuid account sequenceId = Inr (Some err, c)"
    by (intro initReplayConsumer_missing) (simp_all only: codec_forms)
next
  fix rawMsg consumer
  show "length (take 20 uuid) = 20"
    using assms(3) by simp
next
  fix rawMsg consumer
  assume h: "GetLastMsgForSubject stream (account @ ''.notify.'' @ sequenceId @ ''.event'')
              = (Some rawMsg, None)
            \<and> CreateConsumer (JetStream c) account
                \<lparr>Name = ''replay-'' @ take 20 uuid, Durable = [],
                 Description = ''Replay request for sequence: '' @ [CHR 0x27] @ sequenceId
                   @ [CHR 0x27],
                 FilterSubject = account @ ''.notify.'' @ ''replay-'' @ take 20 uuid @ ''.*'',
                 DeliverPolicy = DeliverAllPolicy, AckWait = 0\<rparr> = Inr consumer"
  have u: "20 \<le> length uuid" using assms(3) by simp
  from h have g: "GetLastMsgForSubject stream (SourceEventSubject account sequenceId)
      = (Some rawMsg, None)"
    by (simp only: codec_forms)
  from initReplayConsumer_created[OF assms(2) g u] h assms(1)
  show "\<exists>c' reply.
                    initReplayConsumer c uuid account sequenceId = Inr (None, c')
                  \<and> Consumer c' = Some consumer
                  \<and> published (JetStream c') = published (JetStream c)
                      @ [(account @ ''.notify.'' @ ''replay-'' @ take 20 uuid @ ''.event'',
                          rawData rawMsg, reply)]"
    by (simp add: replayConfig_def codec_forms)
qed

lemma example_replay:
  "accountId (exampleClient fenceReply) = ''acct''"
  "Stream (JetStream (exampleClient fenceReply)) ''acct'' = Inr exampleStream"
  "length exampleUuid = 36"
  "take 20 exampleUuid = ''01234567-89ab-cdef-0''"
  "GetLastMsgForSubject exampleStream ''acct.notify.OLD.event''
     = (Some \<lparr>rawSubject = ''acct.notify.OLD.event'', rawSequence = 1, rawData = ''{x:1}''\<rparr>, None)"
  "GetLastMsgForSubject exampleStream ''acct.notify.GONE.event''
     = (None, Some (Errorf ''nats: message not found''))"
  "CreateConsumer (JetStream (exampleClient fenceReply)) ''acct'' cfg = Inr \<lparr>Config = cfg\<rparr>"
  "published (JetStream (exampleClient fenceReply)) = []"
  by (simp_all add: exampleClient_def exampleJetStream_def exampleStream_def exampleUuid_def)

text \<open>A replay of the sequence \<open>OLD\<close>, whose source event is retained, and of \<open>GONE\<close>, which has
  none.\<close>
theorem initReplayConsumer_construction_witness:
  "(\<exists>err. initReplayConsumer (exampleClient fenceReply) exampleUuid ''acct'' ''GONE''
            = Inr (Some err, exampleClient fenceReply))
   \<and> (\<exists>c' reply.
         initReplayConsumer (exampleClient fenceReply) exampleUuid ''acct'' ''OLD'' = Inr (None, c')
       \<and> Consumer c' = Some \<lparr>Config =
             \<lparr>Name = ''replay-01234567-89ab-cdef-0'', Durable = [],
              Description = ''Replay request for sequence: '' @ [CHR 0x27] @ ''OLD'' @ [CHR 0x27],
              FilterSubject = ''acct.notify.replay-01234567-89ab-cdef-0.*'',
              DeliverPolicy = DeliverAllPolicy, AckWait = 0\<rparr>\<rparr>
       \<and> published (JetStream c')
           = [(''acct.notify.replay-01234567-89ab-cdef-0.event'', ''{x:1}'', reply)])"
proof -
  note th = initReplayConsumer_construction[OF example_replay(1) example_replay(2) example_replay(3)]
  have "\<exists>err. initReplayConsumer (exampleClient fenceReply) exampleUuid ''acct'' ''GONE''
            = Inr (Some err, exampleClient fenceReply)"
    using th[of "''GONE''", THEN conjunct1] by (simp add: example_replay)
  moreover have "\<exists>c' reply.
         initReplayConsumer (exampleClient fenceReply) exampleUuid ''acct'' ''OLD'' = Inr (None, c')
       \<and> Consumer c' = Some \<lparr>Config =
             \<lparr>Name = ''replay-01234567-89ab-cdef-0'', Durable = [],
              Description = ''Replay request for sequence: '' @ [CHR 0x27] @ ''OLD'' @ [CHR 0x27],
              FilterSubject = ''acct.notify.replay-01234567-89ab-cdef-0.*'',
              DeliverPolicy = DeliverAllPolicy, AckWait = 0\<rparr>\<rparr>
       \<and> published (JetStream c')
           = [(''acct.notify.replay-01234567-89ab-cdef-0.event'', ''{x:1}'', reply)]"
    using th[of "''OLD''", THEN conjunct2, rule_format,
        of "\<lparr>rawSubject = ''acct.notify.OLD.event'', rawSequence = 1, rawData = ''{x:1}''\<rparr>"
          "\<lparr>Config = \<lparr>Name = ''replay-01234567-89ab-cdef-0'', Durable = [],
              Description = ''Replay request for sequence: '' @ [CHR 0x27] @ ''OLD'' @ [CHR 0x27],
              FilterSubject = ''acct.notify.replay-01234567-89ab-cdef-0.*'',
              DeliverPolicy = DeliverAllPolicy, AckWait = 0\<rparr>\<rparr>"]
    by (simp add: example_replay)
  ultimately show ?thesis by (intro conjI)
qed

text \<open>Claim C10. When the source message is fetched and the ephemeral consumer created, but the
  broker answers the publish of the source payload under the replay sequence id with an error,
  \<open>initReplayConsumer\<close> still returns nil and \<open>NewReplayClient\<close> hands back the client with that
  consumer: the failed publish is seen in the broker's log only.\<close>
theorem NewReplayClient_seed_unchecked:
  assumes "connect natsUrl = Inr js" and "Stream js account = Inr stream"
    and "GetLastMsgForSubject stream (SourceEventSubject account sequenceId) = (Some rawMsg, None)"
    and "20 \<le> length uuid"
    and "CreateConsumer js account (replayConfig account sequenceId (''replay-'' @ take 20 uuid))
         = Inr consumer"
    and "publishReply js (published js)
           (account @ ''.notify.'' @ ''replay-'' @ take 20 uuid @ ''.event'') (rawData rawMsg)
         = (puback, Some err)"
  shows "\<exists>c'. initReplayConsumer \<lparr>accountId = account, JetStream = js, Consumer = None\<rparr>
                uuid account sequenceId = Inr (None, c')
            \<and> NewReplayClient connect uuid natsUrl account sequenceId = Inr (Ready c')
            \<and> Consumer c' = Some consumer
            \<and> published (JetStream c') = published js
                @ [(account @ ''.notify.'' @ ''replay-'' @ take 20 uuid @ ''.event'',
                    rawData rawMsg, Some err)]"
proof -
  let ?c = "\<lparr>accountId = account, JetStream = js, Consumer = None\<rparr>"
  have "Stream (JetStream ?c) account = Inr stream"
    and "CreateConsumer (JetStream ?c) account
           (replayConfig account sequenceId (''replay-'' @ take 20 uuid)) = Inr consumer"
    using assms by simp_all
  from initReplayConsumer_created[OF this(1) assms(3) assms(4) this(2)] assms(1,6)
  show ?thesis
    by (simp add: NewReplayClient_def)
qed

text \<open>A replay whose seeding publish the broker refuses.\<close>
theorem NewReplayClient_seed_unchecked_witness:
  "\<exists>c'. NewReplayClient exampleConnect exampleUuid ''nats://localhost:4222'' ''acct'' ''OLD''
          = Inr (Ready c')
        \<and> Consumer c' = Some \<lparr>Config = replayConfig ''acct'' ''OLD'' ''replay-01234567-89ab-cdef-0''\<rparr>
        \<and> published (JetStream c')
            = [(''acct.notify.replay-01234567-89ab-cdef-0.event'', ''{x:1}'',
                Some (Errorf ''nats: no response from stream''))]"
proof -
  let ?js = "exampleJetStream fenceReply"
  have p1: "exampleConnect ''nats://localhost:4222'' = Inr ?js"
    by (simp add: exampleConnect_def)
  have p2: "Stream ?js ''acct'' = Inr exampleStream"
    by (simp add: exampleJetStream_def)
  have p3: "GetLastMsgForSubject exampleStream (SourceEventSubject ''acct'' ''OLD'')
      = (Some \<lparr>rawSubject = ''acct.notify.OLD.event'', rawSequence = 1, rawData = ''{x:1}''\<rparr>, None)"
    by (simp add: exampleStream_def codec_forms)
  have p4: "20 \<le> length exampleUuid"
    by (simp add: exampleUuid_def)
  have p5: "CreateConsumer ?js ''acct'' (replayConfig ''acct'' ''OLD'' (''replay-'' @ take 20 exampleUuid))
      = Inr \<lparr>Config = replayConfig ''acct'' ''OLD'' (''replay-'' @ take 20 exampleUuid)\<rparr>"
    by (simp add: exampleJetStream_def)
  have p6: "publishReply ?js (published ?js)
           (''acct'' @ ''.notify.'' @ ''replay-'' @ take 20 exampleUuid @ ''.event'')
           (rawData \<lparr>rawSubject = ''acct.notify.OLD.event'', rawSequence = 1, rawData = ''{x:1}''\<rparr>)
         = (None, Some (Errorf ''nats: no response from stream''))"
    by (simp add: exampleJetStream_def exampleUuid_def fenceReply_def)
  have t: "take 20 exampleUuid = ''01234567-89ab-cdef-0''" "published ?js = []"
    by (simp_all add: exampleUuid_def exampleJetStream_def)
  from NewReplayClient_seed_unchecked[where connect = exampleConnect
      and natsUrl = "''nats://localhost:4222''" and js = ?js and account = "''acct''"
      and stream = exampleStream and sequenceId = "''OLD''" and uuid = exampleUuid
      and rawMsg = "\<lparr>rawSubject = ''acct.notify.OLD.event'', rawSequence = 1, rawData = ''{x:1}''\<rparr>"
      and consumer = "\<lparr>Config = replayConfig ''acct'' ''OLD'' (''replay-'' @ take 20 exampleUuid)\<rparr>"
      and puback = None and err = "Errorf ''nats: no response from stream''",
      OF p1 p2 p3 p4 p5 p6]
  obtain c' where "NewReplayClient exampleConnect exampleUuid ''nats://localhost:4222'' ''acct'' ''OLD''
          = Inr (Ready c')"
    and "Consumer c' = Some \<lparr>Config = replayConfig ''acct'' ''OLD'' (''replay-'' @ take 20 exampleUuid)\<rparr>"
    and "published (JetStream c') = published ?js
                @ [(''acct'' @ ''.notify.'' @ ''replay-'' @ take 20 exampleUuid @ ''.event'',
                    rawData \<lparr>rawSubject = ''acct.notify.OLD.event'', rawSequence = 1, rawData = ''{x:1}''\<rparr>,
                    Some (Errorf ''nats: no response from stream''))]"
    by blast
  then show ?thesis
    by (simp add: t)
qed

subsection \<open>The ack-extension supervisor\<close>

lemma sdiv_pos: "0 < d \<Longrightarrow> (d :: int) sdiv 3 = d div 3"
  by (simp add: signed_divide_int_def)

lemma period_bounds:
  assumes "0 < (d :: int)"
  shows "0 < d - d sdiv 3" "2 * d \<le> 3 * (d - d sdiv 3)" "3 * (d - d sdiv 3) \<le> 2 * d + 2"
proof -
  from assms have s: "d sdiv 3 = d div 3" by (rule sdiv_pos)
  have lo: "3 * (d div 3) \<le> d"
    by (simp add: mult.commute)
  have "d mod 3 < 3" by simp
  moreover have "d = 3 * (d div 3) + d mod 3" by simp
  ultimately have hi: "d \<le> 3 * (d div 3) + 2" by linarith
  from assms have "d div 3 < d" by simp
  then show "0 < d - d sdiv 3" unfolding s by simp
  from lo show "2 * d \<le> 3 * (d - d sdiv 3)" unfolding s by simp
  from hi show "3 * (d - d sdiv 3) \<le> 2 * d + 2" unfolding s by simp
qed

lemma selectLoop_ticks:
  assumes "\<forall>k. n \<le> k \<and> k < n + m \<longrightarrow> ip k = None"
  shows "selectLoop ip n (replicate m tickerC @ evs) = selectLoop ip (n + m) evs"
  using assms
proof (induction m arbitrary: n)
  case 0
  then show ?case by simp
next
  case (Suc m)
  from Suc.prems have "ip n = None" by simp
  moreover from Suc.prems have "\<forall>k. Suc n \<le> k \<and> k < Suc n + m \<longrightarrow> ip k = None"
    by simp
  from Suc.IH[OF this] have "selectLoop ip (Suc n) (replicate m tickerC @ evs) = selectLoop ip (Suc n + m) evs" .
  ultimately show ?case by simp
qed

lemma selectLoop_tick_fails:
  assumes "ip (n + j) = Some e" and "\<forall>k. n \<le> k \<and> k < n + j \<longrightarrow> ip k = None" and "j < m"
  shows "selectLoop ip n (replicate m tickerC @ evs) = (Suc (n + j), Some (Some e))"
  using assms
proof (induction j arbitrary: n m)
  case 0
  from "0.prems"(3) obtain m' where "m = Suc m'"
    by (cases m) simp_all
  with "0.prems"(1) show ?case by simp
next
  case (Suc j)
  from Suc.prems(3) obtain m' where m: "m = Suc m'"
    by (cases m) simp_all
  from Suc.prems(2) have n: "ip n = None" by simp
  have a: "ip (Suc n + j) = Some e"
    using Suc.prems(1) by simp
  have b: "\<forall>k. Suc n \<le> k \<and> k < Suc n + j \<longrightarrow> ip k = None"
    using Suc.prems(2) by simp
  have c: "j < m'"
    using Suc.prems(3) m by simp
  from Suc.IH[OF a b c] n m show ?case by simp
qed

lemma selectLoop_count: "n \<le> fst (selectLoop ip n evs)"
proof (induction evs arbitrary: n)
  case Nil
  then show ?case by simp
next
  case (Cons ev evs)
  show ?case
  proof (cases ev)
    case tickerC
    with Cons[of "Suc n"] show ?thesis
      by (auto split: option.splits dest: Suc_leD)
  qed simp_all
qed

lemma events_ticks: "\<exists>evs. events h = replicate (ticks h) tickerC @ evs"
  by (cases h rule: events.cases) simp_all

lemma runHandler_positive:
  assumes "0 < d"
  shows "runHandler ip msg handler d =
     Inr \<lparr>tickerPeriod = d - d sdiv 3,
          signals = replicate (fst (selectLoop ip 1 (events (handler msg)))) InProgress,
          returned = snd (selectLoop ip 1 (events (handler msg)))\<rparr>"
  using period_bounds(1)[OF assms]
  by (simp add: runHandler_def Let_def split: prod.splits)

lemma selectLoop_first_signal:
  "\<exists>n. replicate (fst (selectLoop ip 1 evs)) InProgress = InProgress # replicate n InProgress"
proof -
  from selectLoop_count[of 1 ip evs]
  obtain n where "fst (selectLoop ip 1 evs) = Suc n"
    by (cases "fst (selectLoop ip 1 evs)") simp_all
  then have "replicate (fst (selectLoop ip 1 evs)) InProgress = InProgress # replicate n InProgress"
    by simp
  then show ?thesis ..
qed

lemma selectLoop_returns:
  assumes "\<forall>k. 1 \<le> k \<and> k \<le> n \<longrightarrow> ip k = None"
  shows "selectLoop ip 1 (events (Returns n r)) = (Suc n, Some r)"
proof -
  from assms have "\<forall>k. 1 \<le> k \<and> k < 1 + n \<longrightarrow> ip k = None" by simp
  from selectLoop_ticks[OF this]
  have "\<And>evs. selectLoop ip 1 (replicate n tickerC @ evs) = selectLoop ip (Suc n) evs" by simp
  then show ?thesis by (cases r) simp_all
qed

lemma selectLoop_working:
  assumes "\<forall>k. 1 \<le> k \<and> k \<le> n \<longrightarrow> ip k = None"
  shows "selectLoop ip 1 (events (Working n)) = (Suc n, None)"
proof -
  from assms have "\<forall>k. 1 \<le> k \<and> k < 1 + n \<longrightarrow> ip k = None" by simp
  from selectLoop_ticks[OF this, of "[]"] show ?thesis by simp
qed

lemma selectLoop_extension:
  assumes "1 \<le> j" "j \<le> ticks h" "ip j = Some e" "\<forall>k. 1 \<le> k \<and> k < j \<longrightarrow> ip k = None"
  shows "selectLoop ip 1 (events h) = (Suc j, Some (Some e))"
proof -
  obtain evs where evs: "events h = replicate (ticks h) tickerC @ evs"
    using events_ticks by blast
  from assms(1) obtain j' where j: "j = Suc j'"
    by (cases j) simp_all
  have a: "ip (1 + j') = Some e"
    using assms(3) j by simp
  have b: "\<forall>k. 1 \<le> k \<and> k < 1 + j' \<longrightarrow> ip k = None"
    using assms(4) j by simp
  have c: "j' < ticks h"
    using assms(2) j by simp
  from selectLoop_tick_fails[OF a b c, of evs] evs j show ?thesis
    by simp
qed

text \<open>Claim C8. For a handler run supervised by \<open>runHandler\<close> with ack-wait \<open>d > 0\<close>: the ticker
  is made with period \<open>d - d/3\<close>, which is two thirds of \<open>d\<close> rounded up; the first call on the
  message is an in-progress signal, and only in-progress signals are sent: the immediate one,
  then one at every tick that \<open>select\<close> takes. When the handler returns nil after \<open>n\<close> ticks
  whose extensions succeeded, the supervisor returns nil, having sent \<open>n + 1\<close> signals; when
  the handler returns an error after \<open>n\<close> such ticks, the supervisor returns that error, having
  sent \<open>n + 1\<close> signals; when the extension of tick \<open>j\<close> is the first to fail while the
  handler runs, the supervisor returns the error of that extension, having sent \<open>j + 1\<close>
  signals; and while the handler is still working after \<open>n\<close> ticks whose extensions
  succeeded, the supervisor has not returned and has sent \<open>n + 1\<close> signals.\<close>
theorem runHandler_supervision:
  assumes "0 < d"
  shows "\<exists>run. runHandler ip msg handler d = Inr run
      \<and> tickerPeriod run = d - d sdiv 3
      \<and> 2 * d \<le> 3 * tickerPeriod run \<and> 3 * tickerPeriod run \<le> 2 * d + 2
      \<and> (\<exists>n. signals run = InProgress # replicate n InProgress)
      \<and> (\<forall>n. handler msg = Returns n None \<and> (\<forall>k. 1 \<le> k \<and> k \<le> n \<longrightarrow> ip k = None)
            \<longrightarrow> returned run = Some None \<and> signals run = InProgress # replicate n InProgress)
      \<and> (\<forall>n e. handler msg = Returns n (Some e) \<and> (\<forall>k. 1 \<le> k \<and> k \<le> n \<longrightarrow> ip k = None)
            \<longrightarrow> returned run = Some (Some e) \<and> signals run = InProgress # replicate n InProgress)
      \<and> (\<forall>j e. 1 \<le> j \<and> j \<le> ticks (handler msg) \<and> ip j = Some e
                 \<and> (\<forall>k. 1 \<le> k \<and> k < j \<longrightarrow> ip k = None)
            \<longrightarrow> returned run = Some (Some e) \<and> signals run = InProgress # replicate j InProgress)
      \<and> (\<forall>n. handler msg = Working n \<and> (\<forall>k. 1 \<le> k \<and> k \<le> n \<longrightarrow> ip k = None)
            \<longrightarrow> returned run = None \<and> signals run = InProgress # replicate n InProgress)"
proof -
  let ?loop = "selectLoop ip 1 (events (handler msg))"
  let ?run = "\<lparr>tickerPeriod = d - d sdiv 3, signals = replicate (fst ?loop) InProgress,
               returned = snd ?loop\<rparr>"
  have run: "runHandler ip msg handler d = Inr ?run"
    using assms by (rule runHandler_positive)
  have period: "tickerPeriod ?run = d - d sdiv 3"
    by simp
  have lo: "2 * d \<le> 3 * tickerPeriod ?run"
    unfolding period by (rule period_bounds(2)[OF assms])
  have hi: "3 * tickerPeriod ?run \<le> 2 * d + 2"
    unfolding period by (rule period_bounds(3)[OF assms])
  have sig: "\<exists>n. signals ?run = InProgress # replicate n InProgress"
    using selectLoop_first_signal[of ip "events (handler msg)"] by simp
  have ok: "\<forall>n. handler msg = Returns n None \<and> (\<forall>k. 1 \<le> k \<and> k \<le> n \<longrightarrow> ip k = None)
            \<longrightarrow> returned ?run = Some None \<and> signals ?run = InProgress # replicate n InProgress"
    using selectLoop_returns[of _ ip None] by auto
  have err: "\<forall>n e. handler msg = Returns n (Some e) \<and> (\<forall>k. 1 \<le> k \<and> k \<le> n \<longrightarrow> ip k = None)
            \<longrightarrow> returned ?run = Some (Some e) \<and> signals ?run = InProgress # replicate n InProgress"
    using selectLoop_returns[of _ ip "Some _"] by auto
  have ext: "\<forall>j e. 1 \<le> j \<and> j \<le> ticks (handler msg) \<and> ip j = Some e
                 \<and> (\<forall>k. 1 \<le> k \<and> k < j \<longrightarrow> ip k = None)
            \<longrightarrow> returned ?run = Some (Some e) \<and> signals ?run = InProgress # replicate j InProgress"
    using selectLoop_extension[of _ "handler msg" ip] by auto
  have work: "\<forall>n. handler msg = Working n \<and> (\<forall>k. 1 \<le> k \<and> k \<le> n \<longrightarrow> ip k = None)
            \<longrightarrow> returned ?run = None \<and> signals ?run = InProgress # replicate n InProgress"
    using selectLoop_working[of _ ip] by auto
  from run period lo hi sig ok err ext work show ?thesis
    by (intro exI[of _ ?run] conjI)
qed

lemma example_period: "Minute - Minute sdiv 3 = 40 * Second"
  by (simp add: Minute_def Second_def signed_divide_int_def)

text \<open>An ack-wait of one minute gives a ticker of 40 seconds; a handler that returns after three
  ticks, one that fails at once, and one whose second extension is refused.\<close>
theorem runHandler_supervision_witness:
  "(\<exists>run. runHandler (\<lambda>k. None) (requestMsg ''slow'' 9) (\<lambda>msg. Returns 3 None) Minute = Inr run
      \<and> tickerPeriod run = 40 * Second \<and> returned run = Some None
      \<and> signals run = [InProgress, InProgress, InProgress, InProgress])
   \<and> (\<exists>run. runHandler (\<lambda>k. None) (requestMsg ''boom'' 9) (\<lambda>msg. Returns 0 (Some (Errorf ''boom'')))
          Minute = Inr run
      \<and> returned run = Some (Some (Errorf ''boom'')) \<and> signals run = [InProgress])
   \<and> (\<exists>run. runHandler lostLease (requestMsg ''slow'' 9) (\<lambda>msg. Returns 3 None) Minute = Inr run
      \<and> returned run = Some (Some (Errorf ''nats: message was already acknowledged''))
      \<and> signals run = [InProgress, InProgress, InProgress])
   \<and> (\<exists>run. runHandler (\<lambda>k. None) (requestMsg ''slow'' 9) (\<lambda>msg. Working 2) Minute = Inr run
      \<and> returned run = None \<and> signals run = [InProgress, InProgress, InProgress])"
proof -
  have pos: "0 < Minute"
    by (simp add: Minute_def Second_def)
  have r3: "replicate 3 InProgress = [InProgress, InProgress, InProgress]"
    and r2: "replicate 2 InProgress = [InProgress, InProgress]"
    by (simp_all add: numeral_3_eq_3 numeral_2_eq_2)
  have "\<exists>run. runHandler (\<lambda>k. None) (requestMsg ''slow'' 9) (\<lambda>msg. Returns 3 None) Minute = Inr run
      \<and> tickerPeriod run = 40 * Second \<and> returned run = Some None
      \<and> signals run = [InProgress, InProgress, InProgress, InProgress]"
    using runHandler_supervision[OF pos, of "\<lambda>k. None" "requestMsg ''slow'' 9" "\<lambda>msg. Returns 3 None"]
    by (auto simp: example_period r3)
  moreover
  have "\<exists>run. runHandler (\<lambda>k. None) (requestMsg ''boom'' 9) (\<lambda>msg. Returns 0 (Some (Errorf ''boom'')))
          Minute = Inr run
      \<and> returned run = Some (Some (Errorf ''boom'')) \<and> signals run = [InProgress]"
    using runHandler_supervision[OF pos, of "\<lambda>k. None" "requestMsg ''boom'' 9"
        "\<lambda>msg. Returns 0 (Some (Errorf ''boom''))"]
    by auto
  moreover
  have "\<exists>run. runHandler lostLease (requestMsg ''slow'' 9) (\<lambda>msg. Returns 3 None) Minute = Inr run
      \<and> returned run = Some (Some (Errorf ''nats: message was already acknowledged''))
      \<and> signals run = [InProgress, InProgress, InProgress]"
  proof -
    from runHandler_supervision[OF pos, of lostLease "requestMsg ''slow'' 9" "\<lambda>msg. Returns 3 None"]
    obtain run where run: "runHandler lostLease (requestMsg ''slow'' 9) (\<lambda>msg. Returns 3 None) Minute = Inr run"
      and ext: "\<forall>j e. 1 \<le> j \<and> j \<le> ticks (Returns 3 None) \<and> lostLease j = Some e
                 \<and> (\<forall>k. 1 \<le> k \<and> k < j \<longrightarrow> lostLease k = None)
            \<longrightarrow> returned run = Some (Some e) \<and> signals run = InProgress # replicate j InProgress"
      by blast
    have "1 \<le> (2::nat) \<and> 2 \<le> ticks (Returns 3 None)
        \<and> lostLease 2 = Some (Errorf ''nats: message was already acknowledged'')
        \<and> (\<forall>k. 1 \<le> k \<and> k < 2 \<longrightarrow> lostLease k = None)"
      by (simp add: lostLease_def)
    with ext have "returned run = Some (Some (Errorf ''nats: message was already acknowledged''))
        \<and> signals run = InProgress # replicate 2 InProgress"
      by blast
    with run show ?thesis by (simp add: r2)
  qed
  moreover
  have "\<exists>run. runHandler (\<lambda>k. None) (requestMsg ''slow'' 9) (\<lambda>msg. Working 2) Minute = Inr run
      \<and> returned run = None \<and> signals run = [InProgress, InProgress, InProgress]"
    using runHandler_supervision[OF pos, of "\<lambda>k. None" "requestMsg ''slow'' 9" "\<lambda>msg. Working 2"]
    by (auto simp: r2)
  ultimately show ?thesis by (intro conjI)
qed

subsection \<open>The callback of ConsumeSequences\<close>

lemma wrappedCB_parse_failure:
  assumes "Parse msg = Inl err"
  shows "wrappedCB c Parse handler msg = Some \<lparr>acks = [Term], handlerCalls = [], finish = Returned\<rparr>"
  using assms by (simp add: wrappedCB_def)

lemma wrappedCB_fetch_failure:
  assumes "Parse msg = Inr hopsMsg" and "FetchMessageBundle c Parse hopsMsg = Some (Inl err)"
  shows "wrappedCB c Parse handler msg =
     Some \<lparr>acks = [NakWithDelay (3 * Second)], handlerCalls = [],
           finish = Panicked (PanicError err)\<rparr>"
  using assms by (simp add: wrappedCB_def)

lemma wrappedCB_handler_failure:
  assumes "Parse msg = Inr hopsMsg" and "FetchMessageBundle c Parse hopsMsg = Some (Inr msgBundle)"
    and "handler (SequenceId hopsMsg) msgBundle = Some err"
  shows "wrappedCB c Parse handler msg =
     Some \<lparr>acks = [NakWithDelay (3 * Second)], handlerCalls = [(SequenceId hopsMsg, msgBundle)],
           finish = Returned\<rparr>"
  using assms by (simp add: wrappedCB_def)

lemma wrappedCB_success:
  assumes "Parse msg = Inr hopsMsg" and "FetchMessageBundle c Parse hopsMsg = Some (Inr msgBundle)"
    and "handler (SequenceId hopsMsg) msgBundle = None"
  shows "wrappedCB c Parse handler msg =
     Some \<lparr>acks = [Ack], handlerCalls = [(SequenceId hopsMsg, msgBundle)], finish = Returned\<rparr>"
  using assms by (simp add: wrappedCB_def)

lemma example_lost_trigger:
  "ParseFor ''acct'' (notifyMsg ''LOST'' ''step1'' 6) = Inr (notifyMeta ''LOST'' ''step1'' 6)"
  by (simp add: ParseFor_def notifyMsg_def notifyMeta_def ChannelNotify_def Let_def)

lemma example_lost_fetch:
  "FetchMessageBundle (exampleClient fenceReply) (ParseFor ''acct'') (notifyMeta ''LOST'' ''step1'' 6)
     = Some (Inl (BundleOverrun 6))"
  by (simp add: FetchMessageBundle_def exampleClient_def exampleJetStream_def example_filters
      exampleDeliveries_def ParseFor_notifyMsg example_fields BundleOverrun_def)

text \<open>Claim C3 at an input where it fails. The message parses, the read back of its sequence
  overruns: the callback answers with a negative ack delayed by 3 seconds, does not call the
  handler, and then panics with the error instead of returning. The three other cases of the
  claim are the lemmas \<open>wrappedCB_parse_failure\<close>, \<open>wrappedCB_handler_failure\<close> and
  \<open>wrappedCB_success\<close>.\<close>
theorem wrappedCB_fetch_failure_panics:
  "wrappedCB (exampleClient fenceReply) (ParseFor ''acct'') (\<lambda>sequenceId msgBundle. None)
       (notifyMsg ''LOST'' ''step1'' 6)
     = Some \<lparr>acks = [NakWithDelay 3000000000], handlerCalls = [],
             finish = Panicked (PanicError (BundleOverrun 6))\<rparr>"
  using wrappedCB_fetch_failure[OF example_lost_trigger example_lost_fetch]
  by (simp add: Second_def)

subsection \<open>The callback of the worker\<close>

lemma callback_parse_failure:
  assumes "parse out msg = Inl err"
  shows "callback w out ackDeadline msg =
     \<lparr>requestAcks = [Nak], ranHandler = None, ended = Some Returned, worker = w\<rparr>"
  using assms by (simp add: callback_def)

lemma callback_unknown_handler:
  assumes "parse out msg = Inr parsedMsg" and "handlers w (HandlerName parsedMsg) = None"
  shows "callback w out ackDeadline msg =
     \<lparr>requestAcks = [Term], ranHandler = None, ended = Some Returned, worker = w\<rparr>"
  using assms by (simp add: callback_def)

lemma callback_handler_error:
  assumes "parse out msg = Inr parsedMsg" and "handlers w (HandlerName parsedMsg) = Some handler"
    and "runHandler (inProgressReply out) msg handler ackDeadline = Inr run"
    and "returned run = Some (Some e)"
    and "marshal out \<lparr>StartedAt = now out 0, FinishedAt = now out 1, Status = ''FAILURE'',
           resultError = Some e\<rparr> = Inr resultBytes"
    and "strings_Contains (responseSubject out parsedMsg) ''.''"
  shows "\<exists>reply. published (JetStream (workerClient (worker (callback w out ackDeadline msg))))
           = published (JetStream (workerClient w))
             @ [(responseSubject out parsedMsg, resultBytes, reply)]
         \<and> requestAcks (callback w out ackDeadline msg)
           = signals run @ [if reply = None
                \<or> strings_Contains (Error (the reply)) ''maximum messages per subject exceeded''
              then DoubleAck else Nak]"
  using assms
  by (auto simp: callback_def PublishResult_def Publish_def js_Publish_def Let_def
      split: prod.splits option.splits)

lemma callback_ack_failure:
  assumes "parse out msg = Inr parsedMsg" and "handlers w (HandlerName parsedMsg) = Some handler"
    and "runHandler (inProgressReply out) msg handler ackDeadline = Inr run"
    and "returned run = Some None"
  shows "callback w out ackDeadline msg =
     \<lparr>requestAcks = signals run @ [DoubleAck], ranHandler = Some (HandlerName parsedMsg),
      ended = Some Returned, worker = w\<rparr>"
  using assms by (simp add: callback_def split: option.splits)

lemma example_request:
  "ParseFor ''acct'' (requestMsg ''tag'' 9) =
     Inr \<lparr>AccountId = ''acct'', Channel = ''request'', SequenceId = ''SEQ'', MessageId = ''c1'',
          AppName = ''github'', HandlerName = ''tag'', StreamSequence = 9\<rparr>"
  by (simp add: ParseFor_def requestMsg_def ChannelNotify_def ChannelRequest_def Let_def)

lemma example_tag_run:
  "runHandler (\<lambda>k. None) (requestMsg ''tag'' 9) (\<lambda>msg. Returns 0 None) Minute =
     Inr \<lparr>tickerPeriod = 40 * Second, signals = [InProgress], returned = Some None\<rparr>"
  by (simp add: runHandler_def example_period Let_def) (simp add: Second_def)

text \<open>Claim C4 at an input where it fails. The handler \<open>tag\<close> succeeds and the broker answers
  the double ack with an error: the calls on the message are the in-progress signal and the
  double ack, and no negative ack follows. The other cases of the claim are the lemmas
  \<open>callback_parse_failure\<close>, \<open>callback_unknown_handler\<close> and \<open>callback_handler_error\<close>.\<close>
theorem callback_ack_failure_not_nakked:
  "doubleAckReply exampleOutside = Some (Errorf ''nats: timeout'')
   \<and> callback exampleWorker exampleOutside Minute (requestMsg ''tag'' 9) =
     \<lparr>requestAcks = [InProgress, DoubleAck], ranHandler = Some ''tag'', ended = Some Returned,
      worker = exampleWorker\<rparr>"
proof -
  have p: "parse exampleOutside (requestMsg ''tag'' 9) =
     Inr \<lparr>AccountId = ''acct'', Channel = ''request'', SequenceId = ''SEQ'', MessageId = ''c1'',
          AppName = ''github'', HandlerName = ''tag'', StreamSequence = 9\<rparr>"
    by (simp add: exampleOutside_def example_request)
  have h: "handlers exampleWorker (HandlerName \<lparr>AccountId = ''acct'', Channel = ''request'',
          SequenceId = ''SEQ'', MessageId = ''c1'',
          AppName = ''github'', HandlerName = ''tag'', StreamSequence = 9\<rparr>) = Some (\<lambda>msg. Returns 0 None)"
    by (simp add: exampleWorker_def exampleHandlers_def)
  have r: "runHandler (inProgressReply exampleOutside) (requestMsg ''tag'' 9) (\<lambda>msg. Returns 0 None) Minute =
     Inr \<lparr>tickerPeriod = 40 * Second, signals = [InProgress], returned = Some None\<rparr>"
    by (simp add: exampleOutside_def example_tag_run)
  from callback_ack_failure[OF p h r] show ?thesis
    by (simp add: exampleOutside_def)
qed

subsection \<open>Fan-out and aggregation of errors\<close>

lemma dispatchCall_malformed:
  assumes "\<not> dispatchable call"
  shows "dispatchCall r call sequenceId
       = (Some (Errorf (''Unable to parse app/handler from call '' @ callName call)), r)"
  using assms by (simp add: dispatchCall_def dispatchable_def strings_Cut_char)

lemma dispatchCall_dispatched:
  assumes "dispatchable call"
  shows "\<exists>reply. publishLog (snd (dispatchCall r call sequenceId))
           = publishLog r @ [(fst (request (accountId (natsClient r)) sequenceId call),
                        snd (request (accountId (natsClient r)) sequenceId call), reply)]
         \<and> (fst (dispatchCall r call sequenceId) = None \<longleftrightarrow> absorbed reply)
         \<and> accountId (natsClient (snd (dispatchCall r call sequenceId))) = accountId (natsClient r)"
  using assms unfolding dispatchable_def
  by (auto simp: dispatchCall_found Let_def publishLog_def request_def absorbed_def split: option.splits)

lemma goroutines_run:
  "\<exists>new. publishLog (snd (goroutines r calls sequenceId)) = publishLog r @ new
       \<and> map (\<lambda>x. (fst x, fst (snd x))) new
           = map (request (accountId (natsClient r)) sequenceId) (filter dispatchable calls)
       \<and> ((\<forall>err \<in> set (fst (goroutines r calls sequenceId)). err = None)
            \<longleftrightarrow> (\<forall>call \<in> set calls. dispatchable call) \<and> (\<forall>x \<in> set new. absorbed (snd (snd x))))
       \<and> accountId (natsClient (snd (goroutines r calls sequenceId))) = accountId (natsClient r)"
proof (induction calls arbitrary: r)
  case Nil
  then show ?case by simp
next
  case (Cons call calls)
  obtain err r' where d: "dispatchCall r call sequenceId = (err, r')"
    by (cases "dispatchCall r call sequenceId")
  obtain errs r'' where g: "goroutines r' calls sequenceId = (errs, r'')"
    by (cases "goroutines r' calls sequenceId")
  from Cons.IH[of r', unfolded g fst_conv snd_conv] obtain new where
    n: "publishLog r'' = publishLog r' @ new
       \<and> map (\<lambda>x. (fst x, fst (snd x))) new
           = map (request (accountId (natsClient r')) sequenceId) (filter dispatchable calls)
       \<and> ((\<forall>err \<in> set errs. err = None)
            \<longleftrightarrow> (\<forall>call \<in> set calls. dispatchable call) \<and> (\<forall>x \<in> set new. absorbed (snd (snd x))))
       \<and> accountId (natsClient r'') = accountId (natsClient r')"
    by (elim exE)
  note n1 = n[THEN conjunct1] and n2 = n[THEN conjunct2, THEN conjunct1]
    and n3 = n[THEN conjunct2, THEN conjunct2, THEN conjunct1]
    and n4 = n[THEN conjunct2, THEN conjunct2, THEN conjunct2]
  have run: "goroutines r (call # calls) sequenceId = (err # errs, r'')"
    using d g by simp
  show ?case
  proof (cases "dispatchable call")
    case True
    from dispatchCall_dispatched[OF True, of r sequenceId, unfolded d fst_conv snd_conv]
    obtain reply where
      sea: "publishLog r' = publishLog r @ [(fst (request (accountId (natsClient r)) sequenceId call),
                        snd (request (accountId (natsClient r)) sequenceId call), reply)]
         \<and> (err = None \<longleftrightarrow> absorbed reply)
         \<and> accountId (natsClient r') = accountId (natsClient r)"
      by (elim exE)
    note s = sea[THEN conjunct1] and e = sea[THEN conjunct2, THEN conjunct1]
      and a = sea[THEN conjunct2, THEN conjunct2]
    let ?new = "(fst (request (accountId (natsClient r)) sequenceId call),
                        snd (request (accountId (natsClient r)) sequenceId call), reply) # new"
    have "publishLog r'' = publishLog r @ ?new"
      using n1 s by simp
    moreover have "map (\<lambda>x. (fst x, fst (snd x))) ?new
           = map (request (accountId (natsClient r)) sequenceId) (filter dispatchable (call # calls))"
      using n2 a True by simp
    moreover have "(\<forall>err \<in> set (err # errs). err = None)
            \<longleftrightarrow> (\<forall>call \<in> set (call # calls). dispatchable call) \<and> (\<forall>x \<in> set ?new. absorbed (snd (snd x)))"
      using n3 e True by auto
    moreover have "accountId (natsClient r'') = accountId (natsClient r)"
      using n4 a by simp
    ultimately show ?thesis
      unfolding run fst_conv snd_conv by blast
  next
    case False
    from dispatchCall_malformed[OF False, of r sequenceId] d
    have r': "r' = r" and e: "err \<noteq> None"
      by auto
    have "publishLog r'' = publishLog r @ new"
      using n1 r' by simp
    moreover have "map (\<lambda>x. (fst x, fst (snd x))) new
           = map (request (accountId (natsClient r)) sequenceId) (filter dispatchable (call # calls))"
      using n2 r' False by simp
    moreover have "(\<forall>err \<in> set (err # errs). err = None)
            \<longleftrightarrow> (\<forall>call \<in> set (call # calls). dispatchable call) \<and> (\<forall>x \<in> set new. absorbed (snd (snd x)))"
      using e False by auto
    moreover have "accountId (natsClient r'') = accountId (natsClient r)"
      using n4 r' by simp
    ultimately show ?thesis
      unfolding run fst_conv snd_conv by blast
  qed
qed

lemma join_channel:
  "foldl (\<lambda>errs err. errors_Join [errs, err]) acc errorchan = None
     \<longleftrightarrow> acc = None \<and> (\<forall>err \<in> set errorchan. err = None)"
proof (induction errorchan arbitrary: acc)
  case Nil
  then show ?case by simp
next
  case (Cons err errorchan)
  have "errors_Join [acc, err] = None \<longleftrightarrow> acc = None \<and> err = None"
    by (cases acc; cases err) (simp_all add: errors_Join_def List.map_filter_simps)
  with Cons[of "errors_Join [acc, err]"] show ?case
    by auto
qed

lemma scheduled_calls:
  assumes "mset sched = mset [0..<length calls]"
  shows "mset (map (\<lambda>i. calls ! i) sched) = mset calls"
proof -
  have "mset (map (\<lambda>i. calls ! i) sched) = image_mset (\<lambda>i. calls ! i) (mset sched)"
    by simp
  also have "\<dots> = mset (map (\<lambda>i. calls ! i) [0..<length calls])"
    unfolding assms by simp
  also have "\<dots> = mset calls"
    by (simp add: map_nth)
  finally show ?thesis .
qed

lemma dispatchCalls_run:
  assumes "mset sched = mset [0..<length (Calls sensor)]"
  shows "\<exists>new. publishLog (snd (dispatchCalls r sensor sequenceId sched)) = publishLog r @ new
       \<and> mset (map (\<lambda>x. (fst x, fst (snd x))) new)
           = mset (map (request (accountId (natsClient r)) sequenceId)
                (filter dispatchable (Calls sensor)))
       \<and> (fst (dispatchCalls r sensor sequenceId sched) = None
            \<longleftrightarrow> (\<forall>call \<in> set (Calls sensor). dispatchable call)
                \<and> (\<forall>x \<in> set new. absorbed (snd (snd x))))
       \<and> accountId (natsClient (snd (dispatchCalls r sensor sequenceId sched)))
           = accountId (natsClient r)"
proof -
  let ?calls = "map (\<lambda>i. Calls sensor ! i) sched"
  obtain errorchan r' where g: "goroutines r ?calls sequenceId = (errorchan, r')"
    by (cases "goroutines r ?calls sequenceId")
  have d: "dispatchCalls r sensor sequenceId sched
      = (foldl (\<lambda>errs err. errors_Join [errs, err]) None errorchan, r')"
    using g by (simp add: dispatchCalls_def)
  from goroutines_run[of r ?calls sequenceId, unfolded g fst_conv snd_conv] obtain new where
    n: "publishLog r' = publishLog r @ new
       \<and> map (\<lambda>x. (fst x, fst (snd x))) new
           = map (request (accountId (natsClient r)) sequenceId) (filter dispatchable ?calls)
       \<and> ((\<forall>err \<in> set errorchan. err = None)
            \<longleftrightarrow> (\<forall>call \<in> set ?calls. dispatchable call) \<and> (\<forall>x \<in> set new. absorbed (snd (snd x))))
       \<and> accountId (natsClient r') = accountId (natsClient r)"
    by (elim exE)
  note n1 = n[THEN conjunct1] and n2 = n[THEN conjunct2, THEN conjunct1]
    and n3 = n[THEN conjunct2, THEN conjunct2, THEN conjunct1]
    and n4 = n[THEN conjunct2, THEN conjunct2, THEN conjunct2]
  have m: "mset ?calls = mset (Calls sensor)"
    using assms by (rule scheduled_calls)
  then have st: "set ?calls = set (Calls sensor)"
    by (rule mset_eq_setD)
  let ?f = "request (accountId (natsClient r)) sequenceId"
  have "mset (map (\<lambda>x. (fst x, fst (snd x))) new) = mset (map ?f (filter dispatchable ?calls))"
    by (rule arg_cong[OF n2])
  also have "\<dots> = image_mset ?f (filter_mset dispatchable (mset ?calls))"
    by (simp only: mset_map mset_filter)
  also have "\<dots> = image_mset ?f (filter_mset dispatchable (mset (Calls sensor)))"
    by (simp only: m)
  also have "\<dots> = mset (map ?f (filter dispatchable (Calls sensor)))"
    by (simp only: mset_map mset_filter)
  finally have a: "mset (map (\<lambda>x. (fst x, fst (snd x))) new)
           = mset (map (request (accountId (natsClient r)) sequenceId)
                (filter dispatchable (Calls sensor)))" .
  have b: "foldl (\<lambda>errs err. errors_Join [errs, err]) None errorchan = None
            \<longleftrightarrow> (\<forall>call \<in> set (Calls sensor). dispatchable call)
                \<and> (\<forall>x \<in> set new. absorbed (snd (snd x)))"
    unfolding join_channel n3 st by (simp only: simp_thms)
  from n1 a b n4 show ?thesis
    unfolding d fst_conv snd_conv by (intro exI[of _ new] conjI)
qed

lemma multierror_Append_Some: "multierror_Append errs e \<noteq> None"
  by (simp add: multierror_Append_def)

lemma sensors_run:
  assumes "\<forall>sensor \<in> set ons. mset (sched sensor) = mset [0..<length (Calls sensor)]"
  shows "\<exists>new. publishLog (snd (sensors r sched sequenceId ons sensorErrors)) = publishLog r @ new
       \<and> mset (map (\<lambda>x. (fst x, fst (snd x))) new)
           = mset (map (request (accountId (natsClient r)) sequenceId)
                (filter dispatchable (concat (map Calls ons))))
       \<and> (fst (sensors r sched sequenceId ons sensorErrors) = None
            \<longleftrightarrow> sensorErrors = None
                \<and> (\<forall>sensor \<in> set ons. \<forall>call \<in> set (Calls sensor). dispatchable call)
                \<and> (\<forall>x \<in> set new. absorbed (snd (snd x))))"
  using assms
proof (induction ons arbitrary: r sensorErrors)
  case Nil
  then show ?case by simp
next
  case (Cons sensor ons)
  obtain err r' where d: "dispatchCalls r sensor sequenceId (sched sensor) = (err, r')"
    by (cases "dispatchCalls r sensor sequenceId (sched sensor)")
  let ?acc = "case err of Some e \<Rightarrow> multierror_Append sensorErrors e | None \<Rightarrow> sensorErrors"
  have run: "sensors r sched sequenceId (sensor # ons) sensorErrors
      = sensors r' sched sequenceId ons ?acc"
    using d by simp
  from Cons.prems have "mset (sched sensor) = mset [0..<length (Calls sensor)]"
    by simp
  from dispatchCalls_run[OF this, of r sequenceId, unfolded d fst_conv snd_conv] obtain new1 where
    n: "publishLog r' = publishLog r @ new1
       \<and> mset (map (\<lambda>x. (fst x, fst (snd x))) new1)
           = mset (map (request (accountId (natsClient r)) sequenceId)
                (filter dispatchable (Calls sensor)))
       \<and> (err = None
            \<longleftrightarrow> (\<forall>call \<in> set (Calls sensor). dispatchable call)
                \<and> (\<forall>x \<in> set new1. absorbed (snd (snd x))))
       \<and> accountId (natsClient r') = accountId (natsClient r)"
    by (elim exE)
  note n1 = n[THEN conjunct1] and n2 = n[THEN conjunct2, THEN conjunct1]
    and n3 = n[THEN conjunct2, THEN conjunct2, THEN conjunct1]
    and n4 = n[THEN conjunct2, THEN conjunct2, THEN conjunct2]
  from Cons.prems have "\<forall>sensor \<in> set ons. mset (sched sensor) = mset [0..<length (Calls sensor)]"
    by simp
  from Cons.IH[OF this, of r' ?acc] obtain new2 where
    k: "publishLog (snd (sensors r' sched sequenceId ons ?acc)) = publishLog r' @ new2
       \<and> mset (map (\<lambda>x. (fst x, fst (snd x))) new2)
           = mset (map (request (accountId (natsClient r')) sequenceId)
                (filter dispatchable (concat (map Calls ons))))
       \<and> (fst (sensors r' sched sequenceId ons ?acc) = None
            \<longleftrightarrow> ?acc = None
                \<and> (\<forall>sensor \<in> set ons. \<forall>call \<in> set (Calls sensor). dispatchable call)
                \<and> (\<forall>x \<in> set new2. absorbed (snd (snd x))))"
    by (elim exE)
  note k1 = k[THEN conjunct1] and k2 = k[THEN conjunct2, THEN conjunct1]
    and k3 = k[THEN conjunct2, THEN conjunct2]
  have acc: "?acc = None \<longleftrightarrow> sensorErrors = None \<and> err = None"
    by (cases err) (simp_all add: multierror_Append_Some)
  let ?f = "request (accountId (natsClient r)) sequenceId"
  have s: "publishLog (snd (sensors r' sched sequenceId ons ?acc)) = publishLog r @ (new1 @ new2)"
    using k1 n1 by simp
  have "mset (map (\<lambda>x. (fst x, fst (snd x))) (new1 @ new2))
      = mset (map (\<lambda>x. (fst x, fst (snd x))) new1) + mset (map (\<lambda>x. (fst x, fst (snd x))) new2)"
    by simp
  also have "\<dots> = mset (map ?f (filter dispatchable (Calls sensor)))
      + mset (map ?f (filter dispatchable (concat (map Calls ons))))"
    by (simp only: n2 k2 n4)
  also have "\<dots> = mset (map ?f (filter dispatchable (concat (map Calls (sensor # ons)))))"
    by simp
  finally have m: "mset (map (\<lambda>x. (fst x, fst (snd x))) (new1 @ new2))
           = mset (map ?f (filter dispatchable (concat (map Calls (sensor # ons)))))" .
  have all: "(\<forall>sensor \<in> set (sensor # ons). \<forall>call \<in> set (Calls sensor). dispatchable call)
      \<longleftrightarrow> (\<forall>call \<in> set (Calls sensor). dispatchable call)
          \<and> (\<forall>sensor \<in> set ons. \<forall>call \<in> set (Calls sensor). dispatchable call)"
    by simp
  have rep: "(\<forall>x \<in> set (new1 @ new2). absorbed (snd (snd x)))
      \<longleftrightarrow> (\<forall>x \<in> set new1. absorbed (snd (snd x))) \<and> (\<forall>x \<in> set new2. absorbed (snd (snd x)))"
    by (simp add: ball_Un)
  have i: "fst (sensors r' sched sequenceId ons ?acc) = None
            \<longleftrightarrow> sensorErrors = None
                \<and> (\<forall>sensor \<in> set (sensor # ons). \<forall>call \<in> set (Calls sensor). dispatchable call)
                \<and> (\<forall>x \<in> set (new1 @ new2). absorbed (snd (snd x)))"
    unfolding k3 acc n3 all rep by blast
  from s m i show ?case
    unfolding run by (intro exI[of _ "new1 @ new2"] conjI)
qed

lemma errorsOf_simps:
  "errorsOf None = []" "errorsOf (Some e) = joined e"
  by (simp_all add: errorsOf_def)

lemma refused_append: "refused (xs @ ys) = refused xs @ refused ys"
  by (simp add: refused_def List.map_filter_def)

lemma refused_Nil: "refused [] = []"
  by (simp add: refused_def List.map_filter_simps)

lemma refused_one:
  "refused [(subject, data, reply)] = (if absorbed reply then [] else [the reply])"
  by (simp add: refused_def List.map_filter_simps absorbed_def split: option.splits)

lemma errorsOf_Join: "errorsOf (errors_Join [a, b]) = errorsOf a @ errorsOf b"
  by (cases a; cases b) (simp_all add: errors_Join_def List.map_filter_simps errorsOf_def)

lemma errorsOf_channel:
  "errorsOf (foldl (\<lambda>errs err. errors_Join [errs, err]) acc errorchan)
     = errorsOf acc @ concat (map errorsOf errorchan)"
proof (induction errorchan arbitrary: acc)
  case Nil
  then show ?case by simp
next
  case (Cons err errorchan)
  show ?case
    by (simp add: Cons[of "errors_Join [acc, err]"] errorsOf_Join)
qed

lemma Join_shape:
  "errors_Join [a, b] = None \<or> (\<exists>e es. errors_Join [a, b] = Some (joinError (e # es)))"
  by (cases a; cases b) (simp_all add: errors_Join_def List.map_filter_simps)

lemma channel_shape:
  assumes "acc = None \<or> (\<exists>e es. acc = Some (joinError (e # es)))"
  shows "foldl (\<lambda>errs err. errors_Join [errs, err]) acc errorchan = None
       \<or> (\<exists>e es. foldl (\<lambda>errs err. errors_Join [errs, err]) acc errorchan = Some (joinError (e # es)))"
  using assms
proof (induction errorchan arbitrary: acc)
  case Nil
  then show ?case by simp
next
  case (Cons err errorchan)
  from Cons.IH[OF Join_shape[of acc err]] show ?case
    by simp
qed

lemma dispatchCall_error:
  assumes "dispatchable call"
  shows "\<exists>reply. publishLog (snd (dispatchCall r call sequenceId))
           = publishLog r @ [(fst (request (accountId (natsClient r)) sequenceId call),
                        snd (request (accountId (natsClient r)) sequenceId call), reply)]
         \<and> fst (dispatchCall r call sequenceId) = (if absorbed reply then None else reply)"
  using assms unfolding dispatchable_def
  by (auto simp: dispatchCall_found Let_def publishLog_def request_def absorbed_def split: option.splits)

lemma dispatchCall_errors:
  "\<exists>new. publishLog (snd (dispatchCall r call sequenceId)) = publishLog r @ new
       \<and> errorsOf (fst (dispatchCall r call sequenceId))
           = (if dispatchable call then [] else [DispatchParseError call]) @ concat (map joined (refused new))"
proof (cases "dispatchable call")
  case True
  from dispatchCall_error[OF True, of r sequenceId] obtain reply where
    r: "publishLog (snd (dispatchCall r call sequenceId))
           = publishLog r @ [(fst (request (accountId (natsClient r)) sequenceId call),
                        snd (request (accountId (natsClient r)) sequenceId call), reply)]"
    and e: "fst (dispatchCall r call sequenceId) = (if absorbed reply then None else reply)"
    by blast
  have "errorsOf (if absorbed reply then None else reply)
      = concat (map joined (refused [(fst (request (accountId (natsClient r)) sequenceId call),
                        snd (request (accountId (natsClient r)) sequenceId call), reply)]))"
    by (cases reply) (simp_all add: refused_one errorsOf_simps absorbed_def)
  with r e True show ?thesis
    by (intro exI[of _ "[(fst (request (accountId (natsClient r)) sequenceId call),
                        snd (request (accountId (natsClient r)) sequenceId call), reply)]"]) simp
next
  case False
  from dispatchCall_malformed[OF False, of r sequenceId] False show ?thesis
    by (intro exI[of _ "[]"]) (simp add: refused_Nil errorsOf_simps DispatchParseError_def)
qed

lemma goroutines_errors:
  "\<exists>new. publishLog (snd (goroutines r calls sequenceId)) = publishLog r @ new
       \<and> mset (concat (map errorsOf (fst (goroutines r calls sequenceId))))
           = mset (map DispatchParseError (filter (\<lambda>call. \<not> dispatchable call) calls))
             + mset (concat (map joined (refused new)))"
proof (induction calls arbitrary: r)
  case Nil
  then show ?case by (simp add: refused_Nil)
next
  case (Cons call calls)
  obtain err r' where d: "dispatchCall r call sequenceId = (err, r')"
    by (cases "dispatchCall r call sequenceId")
  obtain errs r'' where g: "goroutines r' calls sequenceId = (errs, r'')"
    by (cases "goroutines r' calls sequenceId")
  have run: "goroutines r (call # calls) sequenceId = (err # errs, r'')"
    using d g by simp
  from dispatchCall_errors[of r call sequenceId, unfolded d fst_conv snd_conv] obtain new1 where
    a1: "publishLog r' = publishLog r @ new1"
    and a2: "errorsOf err
       = (if dispatchable call then [] else [DispatchParseError call]) @ concat (map joined (refused new1))"
    by blast
  from Cons.IH[of r', unfolded g fst_conv snd_conv] obtain new2 where
    b1: "publishLog r'' = publishLog r' @ new2"
    and b2: "mset (concat (map errorsOf errs))
           = mset (map DispatchParseError (filter (\<lambda>call. \<not> dispatchable call) calls))
             + mset (concat (map joined (refused new2)))"
    by blast
  have s: "publishLog r'' = publishLog r @ (new1 @ new2)"
    using a1 b1 by simp
  have "mset (concat (map errorsOf (err # errs))) = mset (errorsOf err) + mset (concat (map errorsOf errs))"
    by simp
  also have "\<dots> = mset (map DispatchParseError (filter (\<lambda>call. \<not> dispatchable call) (call # calls)))
             + mset (concat (map joined (refused (new1 @ new2))))"
    unfolding a2 b2 by (simp add: refused_append)
  finally have m: "mset (concat (map errorsOf (err # errs)))
      = mset (map DispatchParseError (filter (\<lambda>call. \<not> dispatchable call) (call # calls)))
             + mset (concat (map joined (refused (new1 @ new2))))" .
  from s m show ?case
    unfolding run fst_conv snd_conv by (intro exI[of _ "new1 @ new2"] conjI)
qed

lemma dispatchCalls_errors:
  assumes "mset sched = mset [0..<length (Calls sensor)]"
  shows "\<exists>new. publishLog (snd (dispatchCalls r sensor sequenceId sched)) = publishLog r @ new
       \<and> mset (errorsOf (fst (dispatchCalls r sensor sequenceId sched)))
           = mset (map DispatchParseError (filter (\<lambda>call. \<not> dispatchable call) (Calls sensor)))
             + mset (concat (map joined (refused new)))
       \<and> (fst (dispatchCalls r sensor sequenceId sched) = None
          \<or> (\<exists>e es. fst (dispatchCalls r sensor sequenceId sched) = Some (joinError (e # es))))"
proof -
  let ?calls = "map (\<lambda>i. Calls sensor ! i) sched"
  obtain errorchan r' where g: "goroutines r ?calls sequenceId = (errorchan, r')"
    by (cases "goroutines r ?calls sequenceId")
  have d: "dispatchCalls r sensor sequenceId sched
      = (foldl (\<lambda>errs err. errors_Join [errs, err]) None errorchan, r')"
    using g by (simp add: dispatchCalls_def)
  from goroutines_errors[of r ?calls sequenceId, unfolded g fst_conv snd_conv] obtain new where
    n1: "publishLog r' = publishLog r @ new"
    and n2: "mset (concat (map errorsOf errorchan))
           = mset (map DispatchParseError (filter (\<lambda>call. \<not> dispatchable call) ?calls))
             + mset (concat (map joined (refused new)))"
    by blast
  have m: "mset ?calls = mset (Calls sensor)"
    using assms by (rule scheduled_calls)
  have "mset (map DispatchParseError (filter (\<lambda>call. \<not> dispatchable call) ?calls))
      = image_mset DispatchParseError (filter_mset (\<lambda>call. \<not> dispatchable call) (mset ?calls))"
    by (simp only: mset_map mset_filter)
  also have "\<dots> = image_mset DispatchParseError (filter_mset (\<lambda>call. \<not> dispatchable call) (mset (Calls sensor)))"
    by (simp only: m)
  also have "\<dots> = mset (map DispatchParseError (filter (\<lambda>call. \<not> dispatchable call) (Calls sensor)))"
    by (simp only: mset_map mset_filter)
  finally have p: "mset (map DispatchParseError (filter (\<lambda>call. \<not> dispatchable call) ?calls))
      = mset (map DispatchParseError (filter (\<lambda>call. \<not> dispatchable call) (Calls sensor)))" .
  have "errorsOf (foldl (\<lambda>errs err. errors_Join [errs, err]) None errorchan)
      = concat (map errorsOf errorchan)"
    by (simp add: errorsOf_channel errorsOf_simps)
  then have a: "mset (errorsOf (foldl (\<lambda>errs err. errors_Join [errs, err]) None errorchan))
           = mset (map DispatchParseError (filter (\<lambda>call. \<not> dispatchable call) (Calls sensor)))
             + mset (concat (map joined (refused new)))"
    by (simp only: n2 p)
  have b: "foldl (\<lambda>errs err. errors_Join [errs, err]) None errorchan = None
          \<or> (\<exists>e es. foldl (\<lambda>errs err. errors_Join [errs, err]) None errorchan = Some (joinError (e # es)))"
    by (rule channel_shape) simp
  from n1 a b show ?thesis
    unfolding d fst_conv snd_conv by (intro exI[of _ new] conjI)
qed

lemma errorsOf_Append: "errorsOf (multierror_Append acc e) = errorsOf acc @ joined e"
proof -
  have a: "concat (map joined (case acc of None \<Rightarrow> [] | Some (multierror es) \<Rightarrow> es | Some e' \<Rightarrow> [e']))
      = errorsOf acc"
    by (cases acc) (simp_all add: errorsOf_simps split: error.splits)
  have b: "concat (map joined (case e of multierror es' \<Rightarrow> es' | _ \<Rightarrow> [e])) = joined e"
    by (cases e) simp_all
  show ?thesis
    by (simp add: multierror_Append_def errorsOf_simps a b)
qed

lemma Append_shape:
  assumes "acc = None \<or> (\<exists>errs. acc = Some (multierror errs) \<and> (\<forall>x \<in> set errs. \<exists>j js. x = joinError (j # js)))"
  shows "\<exists>errs. multierror_Append acc (joinError (e # es)) = Some (multierror errs)
       \<and> (\<forall>x \<in> set errs. \<exists>j js. x = joinError (j # js))"
  using assms by (auto simp: multierror_Append_def)

lemma sensors_errors:
  assumes "\<forall>sensor \<in> set ons. mset (sched sensor) = mset [0..<length (Calls sensor)]"
    and "sensorErrors = None
       \<or> (\<exists>errs. sensorErrors = Some (multierror errs) \<and> (\<forall>x \<in> set errs. \<exists>j js. x = joinError (j # js)))"
  shows "\<exists>new. publishLog (snd (sensors r sched sequenceId ons sensorErrors)) = publishLog r @ new
       \<and> mset (errorsOf (fst (sensors r sched sequenceId ons sensorErrors)))
           = mset (errorsOf sensorErrors)
             + mset (map DispatchParseError
                  (filter (\<lambda>call. \<not> dispatchable call) (concat (map Calls ons))))
             + mset (concat (map joined (refused new)))
       \<and> (fst (sensors r sched sequenceId ons sensorErrors) = None
          \<or> (\<exists>errs. fst (sensors r sched sequenceId ons sensorErrors) = Some (multierror errs)
               \<and> (\<forall>x \<in> set errs. \<exists>j js. x = joinError (j # js))))"
  using assms
proof (induction ons arbitrary: r sensorErrors)
  case Nil
  then show ?case by (simp add: refused_Nil)
next
  case (Cons sensor ons)
  obtain err r' where d: "dispatchCalls r sensor sequenceId (sched sensor) = (err, r')"
    by (cases "dispatchCalls r sensor sequenceId (sched sensor)")
  let ?acc = "case err of Some e \<Rightarrow> multierror_Append sensorErrors e | None \<Rightarrow> sensorErrors"
  have run: "sensors r sched sequenceId (sensor # ons) sensorErrors
      = sensors r' sched sequenceId ons ?acc"
    using d by simp
  from Cons.prems(1) have "mset (sched sensor) = mset [0..<length (Calls sensor)]"
    by simp
  from dispatchCalls_errors[OF this, of r sequenceId, unfolded d fst_conv snd_conv] obtain new1 where
    n1: "publishLog r' = publishLog r @ new1"
    and n2: "mset (errorsOf err)
           = mset (map DispatchParseError (filter (\<lambda>call. \<not> dispatchable call) (Calls sensor)))
             + mset (concat (map joined (refused new1)))"
    and n3: "err = None \<or> (\<exists>e es. err = Some (joinError (e # es)))"
    by blast
  have shape: "?acc = None
       \<or> (\<exists>errs. ?acc = Some (multierror errs) \<and> (\<forall>x \<in> set errs. \<exists>j js. x = joinError (j # js)))"
  proof (cases err)
    case None
    with Cons.prems(2) show ?thesis by simp
  next
    case (Some e)
    with n3 obtain j js where "e = joinError (j # js)"
      by auto
    with Some Append_shape[OF Cons.prems(2), of j js] show ?thesis
      by simp
  qed
  have acc: "errorsOf ?acc = errorsOf sensorErrors @ errorsOf err"
    by (cases err) (simp_all add: errorsOf_simps errorsOf_Append)
  from Cons.prems(1) have "\<forall>sensor \<in> set ons. mset (sched sensor) = mset [0..<length (Calls sensor)]"
    by simp
  from Cons.IH[OF this shape, of r'] obtain new2 where
    k1: "publishLog (snd (sensors r' sched sequenceId ons ?acc)) = publishLog r' @ new2"
    and k2: "mset (errorsOf (fst (sensors r' sched sequenceId ons ?acc)))
           = mset (errorsOf ?acc)
             + mset (map DispatchParseError
                  (filter (\<lambda>call. \<not> dispatchable call) (concat (map Calls ons))))
             + mset (concat (map joined (refused new2)))"
    and k3: "fst (sensors r' sched sequenceId ons ?acc) = None
          \<or> (\<exists>errs. fst (sensors r' sched sequenceId ons ?acc) = Some (multierror errs)
               \<and> (\<forall>x \<in> set errs. \<exists>j js. x = joinError (j # js)))"
    by blast
  have s: "publishLog (snd (sensors r' sched sequenceId ons ?acc)) = publishLog r @ (new1 @ new2)"
    using k1 n1 by simp
  have "mset (errorsOf ?acc) = mset (errorsOf sensorErrors) + mset (errorsOf err)"
    unfolding acc by simp
  then have m: "mset (errorsOf (fst (sensors r' sched sequenceId ons ?acc)))
           = mset (errorsOf sensorErrors)
             + mset (map DispatchParseError
                  (filter (\<lambda>call. \<not> dispatchable call) (concat (map Calls (sensor # ons)))))
             + mset (concat (map joined (refused (new1 @ new2))))"
    unfolding k2 n2 by (simp add: refused_append)
  from s m k3 show ?case
    unfolding run by (intro exI[of _ "new1 @ new2"] conjI)
qed

lemma dispatchCalls_joins:
  assumes "mset sched = mset [0..<length (Calls sensor)]"
  shows "\<exists>new. publishLog (snd (dispatchCalls r sensor sequenceId sched)) = publishLog r @ new
       \<and> mset (map (\<lambda>x. (fst x, fst (snd x))) new)
           = mset (map (request (accountId (natsClient r)) sequenceId)
                (filter dispatchable (Calls sensor)))
       \<and> mset (errorsOf (fst (dispatchCalls r sensor sequenceId sched)))
           = mset (map DispatchParseError (filter (\<lambda>call. \<not> dispatchable call) (Calls sensor)))
             + mset (concat (map joined (refused new)))
       \<and> (fst (dispatchCalls r sensor sequenceId sched) = None
          \<or> (\<exists>e es. fst (dispatchCalls r sensor sequenceId sched) = Some (joinError (e # es))))"
proof -
  let ?run = "dispatchCalls r sensor sequenceId sched"
  from dispatchCalls_run[OF assms, of r sequenceId] obtain new where
    n: "publishLog (snd ?run) = publishLog r @ new
       \<and> mset (map (\<lambda>x. (fst x, fst (snd x))) new)
           = mset (map (request (accountId (natsClient r)) sequenceId)
                (filter dispatchable (Calls sensor)))
       \<and> (fst ?run = None
            \<longleftrightarrow> (\<forall>call \<in> set (Calls sensor). dispatchable call)
                \<and> (\<forall>x \<in> set new. absorbed (snd (snd x))))
       \<and> accountId (natsClient (snd ?run)) = accountId (natsClient r)"
    by (elim exE)
  note n1 = n[THEN conjunct1] and n2 = n[THEN conjunct2, THEN conjunct1]
  from dispatchCalls_errors[OF assms, of r sequenceId] obtain new' where
    k: "publishLog (snd ?run) = publishLog r @ new'
       \<and> mset (errorsOf (fst ?run))
           = mset (map DispatchParseError (filter (\<lambda>call. \<not> dispatchable call) (Calls sensor)))
             + mset (concat (map joined (refused new')))
       \<and> (fst ?run = None \<or> (\<exists>e es. fst ?run = Some (joinError (e # es))))"
    by (elim exE)
  note k1 = k[THEN conjunct1] and k2 = k[THEN conjunct2, THEN conjunct1]
    and k3 = k[THEN conjunct2, THEN conjunct2]
  have same: "new' = new"
    using n1 k1 by simp
  from n1 n2 k2[unfolded same] k3 show ?thesis
    by (intro exI[of _ new] conjI)
qed

text \<open>Claim C6. Let the rules evaluate to the matched \<open>On\<close> blocks of \<open>hop\<close>, and let the tasks
  of each \<open>On\<close> run in any order. The requests published during the callback are those of all
  calls, of every \<open>On\<close>, whose task type has the separator \<open>_\<close>: neither a call without
  separator nor a publish error keeps a sibling call or a later \<open>On\<close> from being dispatched.
  \<open>SequenceCallback\<close> returns nil if and only if every call of every \<open>On\<close> has the separator
  and every publish was answered without error or with the error of the duplicate fence. The
  errors held by the returned error are, counted with multiplicity, the parse error of each call
  without separator and the error of each publish that was not absorbed; and a returned error
  is a \<open>multierror\<close> whose errors are non-empty values of \<^verbatim>\<open>errors.Join\<close>. For each
  \<open>On\<close>, from any state of the runner, \<open>dispatchCalls\<close> publishes the requests of its calls
  with separator and returns nil or a non-empty value of \<^verbatim>\<open>errors.Join\<close>, which holds the
  parse error of each of its calls without separator and the error of each of its publishes
  that was not absorbed.\<close>
theorem SequenceCallback_aggregates:
  assumes "ParseHops (hops r) msgBundle = Inr hop"
    and "\<forall>sensor \<in> set (Ons hop). mset (sched sensor) = mset [0..<length (Calls sensor)]"
  shows "(\<exists>new. publishLog (snd (SequenceCallback r ParseHops sched sequenceId msgBundle)) = publishLog r @ new
       \<and> mset (map (\<lambda>x. (fst x, fst (snd x))) new)
           = mset (map (request (accountId (natsClient r)) sequenceId)
                (filter dispatchable (concat (map Calls (Ons hop)))))
       \<and> (fst (SequenceCallback r ParseHops sched sequenceId msgBundle) = None
            \<longleftrightarrow> (\<forall>sensor \<in> set (Ons hop). \<forall>call \<in> set (Calls sensor). dispatchable call)
                \<and> (\<forall>x \<in> set new. absorbed (snd (snd x))))
       \<and> mset (errorsOf (fst (SequenceCallback r ParseHops sched sequenceId msgBundle)))
           = mset (map DispatchParseError
                (filter (\<lambda>call. \<not> dispatchable call) (concat (map Calls (Ons hop)))))
             + mset (concat (map joined (refused new)))
       \<and> (fst (SequenceCallback r ParseHops sched sequenceId msgBundle) = None
          \<or> (\<exists>errs. fst (SequenceCallback r ParseHops sched sequenceId msgBundle) = Some (multierror errs)
               \<and> (\<forall>x \<in> set errs. \<exists>j js. x = joinError (j # js)))))
     \<and> (\<forall>sensor \<in> set (Ons hop). \<forall>r'.
          \<exists>new. publishLog (snd (dispatchCalls r' sensor sequenceId (sched sensor))) = publishLog r' @ new
           \<and> mset (map (\<lambda>x. (fst x, fst (snd x))) new)
               = mset (map (request (accountId (natsClient r')) sequenceId)
                    (filter dispatchable (Calls sensor)))
           \<and> mset (errorsOf (fst (dispatchCalls r' sensor sequenceId (sched sensor))))
               = mset (map DispatchParseError (filter (\<lambda>call. \<not> dispatchable call) (Calls sensor)))
                 + mset (concat (map joined (refused new)))
           \<and> (fst (dispatchCalls r' sensor sequenceId (sched sensor)) = None
              \<or> (\<exists>e es. fst (dispatchCalls r' sensor sequenceId (sched sensor))
                    = Some (joinError (e # es)))))"
proof (rule conjI)
  let ?run = "sensors r sched sequenceId (Ons hop) None"
  have run: "SequenceCallback r ParseHops sched sequenceId msgBundle = ?run"
    using assms(1) by (simp add: SequenceCallback_def sequenceHops_def split: option.splits)
  from sensors_run[OF assms(2), of r sequenceId None] obtain new where
    n: "publishLog (snd ?run) = publishLog r @ new
       \<and> mset (map (\<lambda>x. (fst x, fst (snd x))) new)
           = mset (map (request (accountId (natsClient r)) sequenceId)
                (filter dispatchable (concat (map Calls (Ons hop)))))
       \<and> (fst ?run = None
            \<longleftrightarrow> None = (None :: error option)
                \<and> (\<forall>sensor \<in> set (Ons hop). \<forall>call \<in> set (Calls sensor). dispatchable call)
                \<and> (\<forall>x \<in> set new. absorbed (snd (snd x))))"
    by (elim exE)
  note n1 = n[THEN conjunct1] and n2 = n[THEN conjunct2, THEN conjunct1]
    and n3 = n[THEN conjunct2, THEN conjunct2]
  have none: "(None :: error option) = None
       \<or> (\<exists>errs. (None :: error option) = Some (multierror errs)
            \<and> (\<forall>x \<in> set errs. \<exists>j js. x = joinError (j # js)))"
    by simp
  from sensors_errors[OF assms(2) none, of r sequenceId] obtain new' where
    k: "publishLog (snd ?run) = publishLog r @ new'
       \<and> mset (errorsOf (fst ?run))
           = mset (errorsOf None)
             + mset (map DispatchParseError
                  (filter (\<lambda>call. \<not> dispatchable call) (concat (map Calls (Ons hop)))))
             + mset (concat (map joined (refused new')))
       \<and> (fst ?run = None
          \<or> (\<exists>errs. fst ?run = Some (multierror errs)
               \<and> (\<forall>x \<in> set errs. \<exists>j js. x = joinError (j # js))))"
    by (elim exE)
  note k1 = k[THEN conjunct1] and k2 = k[THEN conjunct2, THEN conjunct1]
    and k3 = k[THEN conjunct2, THEN conjunct2]
  have same: "new' = new"
    using n1 k1 by simp
  have i: "fst ?run = None
            \<longleftrightarrow> (\<forall>sensor \<in> set (Ons hop). \<forall>call \<in> set (Calls sensor). dispatchable call)
                \<and> (\<forall>x \<in> set new. absorbed (snd (snd x)))"
    using n3 by (simp only: simp_thms)
  have m: "mset (errorsOf (fst ?run))
           = mset (map DispatchParseError
                (filter (\<lambda>call. \<not> dispatchable call) (concat (map Calls (Ons hop)))))
             + mset (concat (map joined (refused new)))"
    using k2 unfolding same by (simp add: errorsOf_simps)
  from n1 n2 i m k3
  show "\<exists>new. publishLog (snd (SequenceCallback r ParseHops sched sequenceId msgBundle)) = publishLog r @ new
       \<and> mset (map (\<lambda>x. (fst x, fst (snd x))) new)
           = mset (map (request (accountId (natsClient r)) sequenceId)
                (filter dispatchable (concat (map Calls (Ons hop)))))
       \<and> (fst (SequenceCallback r ParseHops sched sequenceId msgBundle) = None
            \<longleftrightarrow> (\<forall>sensor \<in> set (Ons hop). \<forall>call \<in> set (Calls sensor). dispatchable call)
                \<and> (\<forall>x \<in> set new. absorbed (snd (snd x))))
       \<and> mset (errorsOf (fst (SequenceCallback r ParseHops sched sequenceId msgBundle)))
           = mset (map DispatchParseError
                (filter (\<lambda>call. \<not> dispatchable call) (concat (map Calls (Ons hop)))))
             + mset (concat (map joined (refused new)))
       \<and> (fst (SequenceCallback r ParseHops sched sequenceId msgBundle) = None
          \<or> (\<exists>errs. fst (SequenceCallback r ParseHops sched sequenceId msgBundle) = Some (multierror errs)
               \<and> (\<forall>x \<in> set errs. \<exists>j js. x = joinError (j # js))))"
    unfolding run by (intro exI[of _ new] conjI)
next
  show "\<forall>sensor \<in> set (Ons hop). \<forall>r'.
          \<exists>new. publishLog (snd (dispatchCalls r' sensor sequenceId (sched sensor))) = publishLog r' @ new
           \<and> mset (map (\<lambda>x. (fst x, fst (snd x))) new)
               = mset (map (request (accountId (natsClient r')) sequenceId)
                    (filter dispatchable (Calls sensor)))
           \<and> mset (errorsOf (fst (dispatchCalls r' sensor sequenceId (sched sensor))))
               = mset (map DispatchParseError (filter (\<lambda>call. \<not> dispatchable call) (Calls sensor)))
                 + mset (concat (map joined (refused new)))
           \<and> (fst (dispatchCalls r' sensor sequenceId (sched sensor)) = None
              \<or> (\<exists>e es. fst (dispatchCalls r' sensor sequenceId (sched sensor))
                    = Some (joinError (e # es))))"
  proof (intro ballI allI)
    fix sensor r'
    assume "sensor \<in> set (Ons hop)"
    with assms(2) have "mset (sched sensor) = mset [0..<length (Calls sensor)]"
      by (rule bspec)
    then show "\<exists>new. publishLog (snd (dispatchCalls r' sensor sequenceId (sched sensor))) = publishLog r' @ new
           \<and> mset (map (\<lambda>x. (fst x, fst (snd x))) new)
               = mset (map (request (accountId (natsClient r')) sequenceId)
                    (filter dispatchable (Calls sensor)))
           \<and> mset (errorsOf (fst (dispatchCalls r' sensor sequenceId (sched sensor))))
               = mset (map DispatchParseError (filter (\<lambda>call. \<not> dispatchable call) (Calls sensor)))
                 + mset (concat (map joined (refused new)))
           \<and> (fst (dispatchCalls r' sensor sequenceId (sched sensor)) = None
              \<or> (\<exists>e es. fst (dispatchCalls r' sensor sequenceId (sched sensor))
                    = Some (joinError (e # es))))"
      by (rule dispatchCalls_joins)
  qed
qed

lemma example_calls:
  "\<not> dispatchable malformedCall" "dispatchable exampleCall" "dispatchable slackCall"
  by (simp_all add: dispatchable_def malformedCall_def exampleCall_def slackCall_def)

lemma example_sched:
  "\<forall>sensor \<in> set (Ons exampleHop). mset (exampleSched sensor) = mset [0..<length (Calls sensor)]"
  by (simp add: exampleHop_def exampleSched_def upt_rec)

text \<open>Two \<open>On\<close> blocks; the first holds a call without separator, scheduled after its
  sibling. With the example broker only that call fails; with a broker that answers every
  publish with a timeout, every call fails, both requests are still published, and the first
  \<open>On\<close> joins the timeout of its first task with the parse error of its second.\<close>
theorem SequenceCallback_aggregates_witness:
  "fst (SequenceCallback exampleRunner (\<lambda>body bundle. Inr exampleHop) exampleSched ''SEQ'' Map.empty)
     \<noteq> None
   \<and> mset (map (\<lambda>x. (fst x, fst (snd x)))
        (publishLog (snd (SequenceCallback exampleRunner (\<lambda>body bundle. Inr exampleHop) exampleSched
           ''SEQ'' Map.empty))))
     = {#(''acct.request.SEQ.push0-create_tag.github.create_tag'', ''{ref:v1}''),
         (''acct.request.SEQ.push1-post.slack.post'', ''{text:hi}'')#}
   \<and> fst (SequenceCallback exampleRunner (\<lambda>body bundle. Inr exampleHop) exampleSched ''SEQ'' Map.empty)
     = Some (multierror [joinError [Errorf ''Unable to parse app/handler from call bad'']])
   \<and> fst (SequenceCallback outageRunner (\<lambda>body bundle. Inr exampleHop) exampleSched ''SEQ'' Map.empty)
     = Some (multierror
         [joinError [joinError [Errorf ''nats: timeout''],
                     Errorf ''Unable to parse app/handler from call bad''],
          joinError [Errorf ''nats: timeout'']])
   \<and> publishLog (snd (SequenceCallback outageRunner (\<lambda>body bundle. Inr exampleHop) exampleSched
        ''SEQ'' Map.empty))
     = [(''acct.request.SEQ.push0-create_tag.github.create_tag'', ''{ref:v1}'',
           Some (Errorf ''nats: timeout'')),
        (''acct.request.SEQ.push1-post.slack.post'', ''{text:hi}'', Some (Errorf ''nats: timeout''))]
   \<and> mset (errorsOf (fst (SequenceCallback outageRunner (\<lambda>body bundle. Inr exampleHop) exampleSched
        ''SEQ'' Map.empty)))
     = {#Errorf ''Unable to parse app/handler from call bad'', Errorf ''nats: timeout'',
         Errorf ''nats: timeout''#}
   \<and> fst (dispatchCalls outageRunner (hd (Ons exampleHop)) ''SEQ'' (exampleSched (hd (Ons exampleHop))))
     = Some (joinError [joinError [Errorf ''nats: timeout''],
                        Errorf ''Unable to parse app/handler from call bad''])"
proof -
  let ?run = "SequenceCallback exampleRunner (\<lambda>body bundle. Inr exampleHop) exampleSched ''SEQ''
     Map.empty"
  let ?out = "SequenceCallback outageRunner (\<lambda>body bundle. Inr exampleHop) exampleSched ''SEQ''
     Map.empty"
  have "(\<lambda>body bundle. Inr exampleHop) (hops exampleRunner) Map.empty = Inr exampleHop"
    by simp
  from SequenceCallback_aggregates[where ParseHops = "\<lambda>body bundle. Inr exampleHop"
      and r = exampleRunner and msgBundle = Map.empty and hop = exampleHop
      and sched = exampleSched and sequenceId = "''SEQ''", OF this example_sched, THEN conjunct1]
  obtain new where n: "publishLog (snd ?run) = publishLog exampleRunner @ new
       \<and> mset (map (\<lambda>x. (fst x, fst (snd x))) new)
           = mset (map (request (accountId (natsClient exampleRunner)) ''SEQ'')
                (filter dispatchable (concat (map Calls (Ons exampleHop)))))
       \<and> (fst ?run = None
            \<longleftrightarrow> (\<forall>sensor \<in> set (Ons exampleHop). \<forall>call \<in> set (Calls sensor). dispatchable call)
                \<and> (\<forall>x \<in> set new. absorbed (snd (snd x))))
       \<and> mset (errorsOf (fst ?run))
           = mset (map DispatchParseError
                (filter (\<lambda>call. \<not> dispatchable call) (concat (map Calls (Ons exampleHop)))))
             + mset (concat (map joined (refused new)))
       \<and> (fst ?run = None
          \<or> (\<exists>errs. fst ?run = Some (multierror errs)
               \<and> (\<forall>x \<in> set errs. \<exists>j js. x = joinError (j # js))))"
    by (elim exE)
  note s = n[THEN conjunct1] and m = n[THEN conjunct2, THEN conjunct1]
    and i = n[THEN conjunct2, THEN conjunct2, THEN conjunct1]
  have "\<not> (\<forall>sensor \<in> set (Ons exampleHop). \<forall>call \<in> set (Calls sensor). dispatchable call)"
    by (simp add: exampleHop_def example_calls)
  with i have nonnil: "fst ?run \<noteq> None"
    by (simp only: simp_thms)
  have e: "publishLog exampleRunner = []"
    by (simp add: publishLog_def exampleRunner_def exampleClient_def exampleJetStream_def)
  have rhs: "map (request (accountId (natsClient exampleRunner)) ''SEQ'')
                (filter dispatchable (concat (map Calls (Ons exampleHop))))
      = [(''acct.request.SEQ.push0-create_tag.github.create_tag'', ''{ref:v1}''),
         (''acct.request.SEQ.push1-post.slack.post'', ''{text:hi}'')]"
    by (simp add: exampleHop_def example_calls)
      (simp add: request_def requestSubject_def exampleRunner_def
        exampleClient_def exampleCall_def slackCall_def)
  have "mset (map (\<lambda>x. (fst x, fst (snd x))) (publishLog (snd ?run)))
      = mset (map (\<lambda>x. (fst x, fst (snd x))) new)"
    by (simp only: s e append_Nil)
  also have "\<dots> = mset [(''acct.request.SEQ.push0-create_tag.github.create_tag'', ''{ref:v1}''),
         (''acct.request.SEQ.push1-post.slack.post'', ''{text:hi}'')]"
    by (simp only: m rhs)
  also have "\<dots> = {#(''acct.request.SEQ.push0-create_tag.github.create_tag'', ''{ref:v1}''),
         (''acct.request.SEQ.push1-post.slack.post'', ''{text:hi}'')#}"
    by simp
  finally have reqs: "mset (map (\<lambda>x. (fst x, fst (snd x))) (publishLog (snd ?run)))
      = {#(''acct.request.SEQ.push0-create_tag.github.create_tag'', ''{ref:v1}''),
         (''acct.request.SEQ.push1-post.slack.post'', ''{text:hi}'')#}" .
  have val: "fst ?run = Some (multierror [joinError [Errorf ''Unable to parse app/handler from call bad'']])"
    by (simp add: SequenceCallback_def sequenceHops_def exampleHop_def exampleSched_def
        dispatchCalls_def dispatchCall_malformed example_calls
        dispatchCall_found[OF example_calls(2)[unfolded dispatchable_def]]
        dispatchCall_found[OF example_calls(3)[unfolded dispatchable_def]]
        Let_def errors_Join_def List.map_filter_simps)
      (simp add: exampleCall_def slackCall_def malformedCall_def exampleRunner_def exampleClient_def
        exampleJetStream_def requestSubject_def fenceReply_def multierror_Append_def)
  have out: "fst ?out = Some (multierror
         [joinError [joinError [Errorf ''nats: timeout''],
                     Errorf ''Unable to parse app/handler from call bad''],
          joinError [Errorf ''nats: timeout'']])
     \<and> publishLog (snd ?out)
     = [(''acct.request.SEQ.push0-create_tag.github.create_tag'', ''{ref:v1}'',
           Some (Errorf ''nats: timeout'')),
        (''acct.request.SEQ.push1-post.slack.post'', ''{text:hi}'', Some (Errorf ''nats: timeout''))]"
    by (simp add: SequenceCallback_def sequenceHops_def exampleHop_def exampleSched_def
        dispatchCalls_def dispatchCall_malformed example_calls
        dispatchCall_found[OF example_calls(2)[unfolded dispatchable_def]]
        dispatchCall_found[OF example_calls(3)[unfolded dispatchable_def]]
        Let_def errors_Join_def List.map_filter_simps)
      (simp add: exampleCall_def slackCall_def malformedCall_def outageRunner_def exampleClient_def
        exampleJetStream_def requestSubject_def outageReply_def multierror_Append_def publishLog_def
        strings_Contains_def)
  have one: "fst (dispatchCalls outageRunner (hd (Ons exampleHop)) ''SEQ'' (exampleSched (hd (Ons exampleHop))))
     = Some (joinError [joinError [Errorf ''nats: timeout''],
                        Errorf ''Unable to parse app/handler from call bad''])"
    by (simp add: exampleHop_def exampleSched_def
        dispatchCalls_def dispatchCall_malformed example_calls
        dispatchCall_found[OF example_calls(2)[unfolded dispatchable_def]]
        Let_def errors_Join_def List.map_filter_simps)
      (simp add: exampleCall_def malformedCall_def outageRunner_def exampleClient_def
        exampleJetStream_def requestSubject_def outageReply_def strings_Contains_def)
  have "(\<lambda>body bundle. Inr exampleHop) (hops outageRunner) Map.empty = Inr exampleHop"
    by simp
  from SequenceCallback_aggregates[where ParseHops = "\<lambda>body bundle. Inr exampleHop"
      and r = outageRunner and msgBundle = Map.empty and hop = exampleHop
      and sched = exampleSched and sequenceId = "''SEQ''", OF this example_sched, THEN conjunct1]
  obtain new' where o: "publishLog (snd ?out) = publishLog outageRunner @ new'
       \<and> mset (map (\<lambda>x. (fst x, fst (snd x))) new')
           = mset (map (request (accountId (natsClient outageRunner)) ''SEQ'')
                (filter dispatchable (concat (map Calls (Ons exampleHop)))))
       \<and> (fst ?out = None
            \<longleftrightarrow> (\<forall>sensor \<in> set (Ons exampleHop). \<forall>call \<in> set (Calls sensor). dispatchable call)
                \<and> (\<forall>x \<in> set new'. absorbed (snd (snd x))))
       \<and> mset (errorsOf (fst ?out))
           = mset (map DispatchParseError
                (filter (\<lambda>call. \<not> dispatchable call) (concat (map Calls (Ons exampleHop)))))
             + mset (concat (map joined (refused new')))
       \<and> (fst ?out = None
          \<or> (\<exists>errs. fst ?out = Some (multierror errs)
               \<and> (\<forall>x \<in> set errs. \<exists>j js. x = joinError (j # js))))"
    by (elim exE)
  note o1 = o[THEN conjunct1]
    and o4 = o[THEN conjunct2, THEN conjunct2, THEN conjunct2, THEN conjunct1]
  have e': "publishLog outageRunner = []"
    by (simp add: publishLog_def outageRunner_def exampleClient_def exampleJetStream_def)
  have new': "new' = [(''acct.request.SEQ.push0-create_tag.github.create_tag'', ''{ref:v1}'',
           Some (Errorf ''nats: timeout'')),
        (''acct.request.SEQ.push1-post.slack.post'', ''{text:hi}'', Some (Errorf ''nats: timeout''))]"
    using o1 out[THEN conjunct2] e' by simp
  have parse: "map DispatchParseError
      (filter (\<lambda>call. \<not> dispatchable call) (concat (map Calls (Ons exampleHop))))
      = [Errorf ''Unable to parse app/handler from call bad'']"
    by (simp add: exampleHop_def example_calls) (simp add: DispatchParseError_def malformedCall_def)
  have ref: "concat (map joined (refused new')) = [Errorf ''nats: timeout'', Errorf ''nats: timeout'']"
    unfolding new'
    by (simp add: refused_def List.map_filter_simps absorbed_def strings_Contains_def)
  have held: "mset (errorsOf (fst ?out))
      = {#Errorf ''Unable to parse app/handler from call bad'', Errorf ''nats: timeout'',
         Errorf ''nats: timeout''#}"
    unfolding o4 parse ref by simp
  from nonnil reqs val out[THEN conjunct1] out[THEN conjunct2] held one show ?thesis
    by (intro conjI)
qed

end
